theory Spec2Isabelle
  imports Main
begin

section \<open>Strings and the regular expressions of the scrapers\<close>

text \<open>
  Python strings are modelled as \<open>string\<close> (lists of 8-bit characters); the model
  covers ASCII text, where \<open>str.lower\<close>, \<open>\d\<close> and \<open>re.I\<close> act on the letters
  \<open>A\<close>-\<open>Z\<close> and the digits \<open>0\<close>-\<open>9\<close> only.
\<close>

definition is_digit :: "char \<Rightarrow> bool" where
  "is_digit c = (48 \<le> (of_char c :: nat) \<and> (of_char c :: nat) \<le> 57)"

definition is_space :: "char \<Rightarrow> bool" where
  "is_space c = ((of_char c :: nat) \<in> {9, 10, 11, 12, 13, 28, 29, 30, 31, 32})"

definition lower_char :: "char \<Rightarrow> char" where
  "lower_char c =
     (if 65 \<le> (of_char c :: nat) \<and> (of_char c :: nat) \<le> 90
      then char_of ((of_char c :: nat) + 32) else c)"

text \<open>\<open>s.lower()\<close>\<close>

definition lower :: "string \<Rightarrow> string" where
  "lower s = map lower_char s"

text \<open>\<open>s.startswith(p)\<close>, used by the matchers below.\<close>

fun startswith :: "string \<Rightarrow> string \<Rightarrow> bool" where
  "startswith s [] = True"
| "startswith [] (p # ps) = False"
| "startswith (c # cs) (p # ps) = (c = p \<and> startswith cs ps)"

text \<open>\<open>sub in s\<close>\<close>

fun contains :: "string \<Rightarrow> string \<Rightarrow> bool" where
  "contains sub [] = (sub = [])"
| "contains sub (c # cs) = (startswith (c # cs) sub \<or> contains sub cs)"

text \<open>
  \<open>s.replace(old, new)\<close> for a non-empty \<open>old\<close> (the source replaces \<open>' '\<close>,
  \<open>'school-district'\<close> and \<open>','\<close>): occurrences are replaced from the left, without
  overlap.
\<close>

function replace :: "string \<Rightarrow> string \<Rightarrow> string \<Rightarrow> string" where
  "replace old new [] = []"
| "replace old new (c # cs) =
     (if old \<noteq> [] \<and> startswith (c # cs) old
      then new @ replace old new (drop (length old) (c # cs))
      else c # replace old new cs)"
  by pat_completeness auto
termination
  by (relation "measure (\<lambda>(old, new, s). length s)") (auto simp: neq_Nil_conv)

text \<open>\<open>s.strip(chars)\<close> and \<open>s.strip()\<close>\<close>

definition strip_chars :: "string \<Rightarrow> string \<Rightarrow> string" where
  "strip_chars chars s =
     rev (dropWhile (\<lambda>c. c \<in> set chars) (rev (dropWhile (\<lambda>c. c \<in> set chars) s)))"

definition strip :: "string \<Rightarrow> string" where
  "strip s = rev (dropWhile is_space (rev (dropWhile is_space s)))"

text \<open>\<open>sep.join(xs)\<close>\<close>

fun join :: "string \<Rightarrow> string list \<Rightarrow> string" where
  "join sep [] = []"
| "join sep [x] = x"
| "join sep (x # y # ys) = x @ sep @ join sep (y # ys)"

text \<open>
  \<open>re.search(r'(\d+)', s)\<close>: group 1 of the leftmost match, the first maximal run of
  digits; \<open>None\<close> when \<open>s\<close> has no digit.
\<close>

definition search_digits :: "string \<Rightarrow> string option" where
  "search_digits s =
     (case dropWhile (\<lambda>c. \<not> is_digit c) s of
        [] \<Rightarrow> None
      | d # r \<Rightarrow> Some (d # takeWhile is_digit r))"

text \<open>
  \<open>re.search(r'([A-F][+-]?)', s)\<close>: the first capital letter \<open>A\<close>..\<open>F\<close> of \<open>s\<close>,
  together with the character after it when that is \<open>+\<close> or \<open>-\<close>.
\<close>

definition is_grade_letter :: "char \<Rightarrow> bool" where
  "is_grade_letter c = (65 \<le> (of_char c :: nat) \<and> (of_char c :: nat) \<le> 70)"

definition search_grade :: "string \<Rightarrow> string option" where
  "search_grade s =
     (case dropWhile (\<lambda>c. \<not> is_grade_letter c) s of
        [] \<Rightarrow> None
      | g # r \<Rightarrow>
          Some (g # (case r of
                       [] \<Rightarrow> []
                     | c # _ \<Rightarrow> if c = CHR ''+'' \<or> c = CHR ''-'' then [c] else [])))"

text \<open>
  \<open>re.search(r'(\d+(?:,\d+)*)', s)\<close>: the first run of digits, extended greedily by
  groups of a comma and at least one digit.
\<close>

function comma_groups :: "string \<Rightarrow> string" where
  "comma_groups [] = []"
| "comma_groups (c # r) =
     (if c = CHR '','' \<and> takeWhile is_digit r \<noteq> []
      then c # takeWhile is_digit r @ comma_groups (dropWhile is_digit r)
      else [])"
  by pat_completeness auto
termination
  by (relation "measure length") (auto simp: length_dropWhile_le less_Suc_eq_le)

definition search_enrollment :: "string \<Rightarrow> string option" where
  "search_enrollment s =
     (case dropWhile (\<lambda>c. \<not> is_digit c) s of
        [] \<Rightarrow> None
      | d # r \<Rightarrow> Some (d # takeWhile is_digit r @ comma_groups (dropWhile is_digit r)))"

text \<open>
  \<open>re.search(r'(\d+:\d+)', s)\<close>: the leftmost maximal run of digits that is followed
  by a colon and a digit, with the colon and the digits after it. A run of digits not
  followed so cannot start a match anywhere inside it, and the scan goes on behind it.
\<close>

function search_ratio :: "string \<Rightarrow> string option" where
  "search_ratio s =
     (case dropWhile (\<lambda>c. \<not> is_digit c) s of
        [] \<Rightarrow> None
      | d # r \<Rightarrow>
          (case dropWhile is_digit r of
             [] \<Rightarrow> None
           | c # t \<Rightarrow>
               if c = CHR '':'' \<and> takeWhile is_digit t \<noteq> []
               then Some (d # takeWhile is_digit r @ c # takeWhile is_digit t)
               else search_ratio (c # t)))"
  by pat_completeness auto
termination
proof (relation "measure length", simp, goal_cases)
  case (1 s d r c t)
  have "length (c # t) \<le> length r"
    using length_dropWhile_le [of is_digit r] 1(2) by simp
  also have "length r < length (d # r)" by simp
  also have "length (d # r) \<le> length s"
    using length_dropWhile_le [of "\<lambda>c. \<not> is_digit c" s] 1(1) by simp
  finally show ?case by simp
qed

text \<open>
  \<open>re.search\<close> with a pattern \<open>a.*b\<close> of two literal strings: \<open>a\<close> occurs in \<open>s\<close>
  and \<open>b\<close> occurs behind it with no line break in between (\<open>.\<close> does not match a
  newline).
\<close>

fun match_dotstar :: "string \<Rightarrow> string \<Rightarrow> bool" where
  "match_dotstar b [] = (b = [])"
| "match_dotstar b (c # cs) =
     (startswith (c # cs) b \<or> (c \<noteq> CHR 0x0A \<and> match_dotstar b cs))"

fun search_dotstar :: "string \<Rightarrow> string \<Rightarrow> string \<Rightarrow> bool" where
  "search_dotstar a b [] = (a = [] \<and> b = [])"
| "search_dotstar a b (c # cs) =
     ((startswith (c # cs) a \<and> match_dotstar b (drop (length a) (c # cs)))
      \<or> search_dotstar a b cs)"

text \<open>
  \<open>int(s)\<close> on a string: the model gives the value of a non-empty string of decimal
  digits and \<open>ValueError\<close> for any other string (Python also reads signs, blanks and
  underscores, which no string passed by the scrapers holds). Python's integers are
  unbounded, but \<open>int\<close> refuses a string of more than 4300 digits with a \<open>ValueError\<close>
  (the default of \<open>sys.get_int_max_str_digits()\<close>, CPython 3.11 and the security
  releases before it).
\<close>

datatype py_exception =
    ConnectionError | Timeout | TooManyRedirects | HTTPError nat
  | OtherRequestException string | KeyError string | ValueError string
  | OSError string | ParserRejectedMarkup string

definition digit_value :: "char \<Rightarrow> int" where
  "digit_value c = int (of_char c) - 48"

definition int_max_str_digits :: nat where
  "int_max_str_digits = 4300"

definition py_int :: "string \<Rightarrow> py_exception + int" where
  "py_int s =
     (if s \<noteq> [] \<and> list_all is_digit s \<and> length s \<le> int_max_str_digits
      then Inr (foldl (\<lambda>n c. 10 * n + digit_value c) 0 s)
      else Inl (ValueError s))"

section \<open>The HTTP fetcher\<close>

text \<open>
  The run's effects are a log of the delays slept and the GET requests issued, the
  files written, and the number of times the clock has been read. The outside world
  answers the \<open>n\<close>-th effect of a run: \<open>session_get w n url\<close> is what
  \<open>self.session.get(url, timeout=10)\<close> does when \<open>n\<close> effects came before it (it raises
  or returns a response), \<open>to_csv w n filename\<close> is what \<open>df.to_csv(filename, index=False)\<close>
  does then (it raises, as an \<open>OSError\<close> for a directory that does not exist, or
  writes the file), and \<open>now w k\<close> is what the \<open>k\<close>-th reading of
  \<open>pd.Timestamp.now().isoformat()\<close> gives. Delays are in milliseconds.
\<close>

datatype event = Sleep nat | Get string

text \<open>A response, with its fields \<open>status_code\<close> and \<open>text\<close> (here \<open>resp_text\<close>).\<close>

record response =
  status_code :: nat
  resp_text :: string

datatype pyval = PyInt int | PyStr string

record SchoolDistrictData =
  district_name :: string
  county :: string
  greatschools_rating :: "pyval option"
  greatschools_url :: "pyval option"
  niche_rating :: "pyval option"
  niche_url :: "pyval option"
  schooldigger_rating :: "pyval option"
  schooldigger_url :: "pyval option"
  enrollment :: "pyval option"
  student_teacher_ratio :: "pyval option"
  last_updated :: "string option"

record world =
  session_get :: "nat \<Rightarrow> string \<Rightarrow> py_exception + response"
  to_csv :: "nat \<Rightarrow> string \<Rightarrow> py_exception option"
  now :: "nat \<Rightarrow> string"

record run_state =
  log :: "event list"
  files :: "string \<Rightarrow> SchoolDistrictData list option"
  clock_reads :: nat

text \<open>
  \<open>response.raise_for_status()\<close> of the requests library: an \<open>HTTPError\<close> for a status
  from 400 to 599, nothing for any other status.
\<close>

definition raise_for_status :: "response \<Rightarrow> py_exception + unit" where
  "raise_for_status r =
     (if 400 \<le> status_code r \<and> status_code r < 600
      then Inl (HTTPError (status_code r)) else Inr ())"

text \<open>The body of the \<open>try\<close> block of \<open>get_page_source\<close>.\<close>

definition try_get :: "world \<Rightarrow> nat \<Rightarrow> string \<Rightarrow> run_state \<Rightarrow> (py_exception + string) \<times> run_state" where
  "try_get w delay url st =
     (let st1 = st\<lparr>log := log st @ [Sleep delay]\<rparr>;
          st2 = st1\<lparr>log := log st1 @ [Get url]\<rparr>
      in case session_get w (length (log st1)) url of
           Inl e \<Rightarrow> (Inl e, st2)
         | Inr r \<Rightarrow>
             (case raise_for_status r of
                Inl e \<Rightarrow> (Inl e, st2)
              | Inr _ \<Rightarrow> (Inr (resp_text r), st2)))"

text \<open>
  \<open>BaseScraper.get_page_source\<close>: \<open>except Exception\<close> turns every exception of the
  block into \<open>None\<close>.
\<close>

definition get_page_source :: "world \<Rightarrow> nat \<Rightarrow> string \<Rightarrow> run_state \<Rightarrow> string option \<times> run_state" where
  "get_page_source w delay url st =
     (case try_get w delay url st of
        (Inl e, st') \<Rightarrow> (None, st')
      | (Inr body, st') \<Rightarrow> (Some body, st'))"

section \<open>The parsed page\<close>

text \<open>
  The tree that \<open>BeautifulSoup(source, 'html.parser')\<close> builds: a \<open>Tag\<close> has a name, its
  attributes (the items of the \<open>attrs\<close> dictionary, each key once) and its contents; a
  \<open>NavigableString\<close> is a piece of text, and a \<open>SpecialString\<close> is a string of one of
  the subclasses of \<open>NavigableString\<close> (a comment, the text of a \<open>script\<close> or \<open>style\<close>
  element, a declaration and so on). The soup itself is a \<open>Tag\<close>. The value of a
  \<open>class\<close> attribute is kept as the string of the page.

  The parser and the two functions of \<open>urllib.parse\<close> are parameters of the model. The
  parser and \<open>urljoin\<close> can raise (\<open>html.parser\<close> rejects some markup, \<open>urljoin\<close> raises
  a \<open>ValueError\<close> on some links); \<open>quote\<close> does not, on the ASCII strings of the model.
\<close>

datatype string_class =
    CData | Comment | Declaration | Doctype | ProcessingInstruction
  | Script | Stylesheet | TemplateString | RubyTextString | RubyParenthesisString

datatype node =
    NavigableString string
  | SpecialString string_class string
  | Tag string "(string \<times> string) list" "node list"

record lib =
  BeautifulSoup :: "string \<Rightarrow> py_exception + node"
  urljoin :: "string \<Rightarrow> string \<Rightarrow> py_exception + string"
  quote :: "string \<Rightarrow> string"

text \<open>
  \<open>tag.get_text()\<close>: the strings below the tag that are of the tag's
  \<open>interesting_string_types\<close>, concatenated in document order. Those are the plain
  strings and the \<open>CData\<close> strings, except for the five tags that the HTML tree builder
  lists as containers of a string class of their own; \<open>None\<close> stands for the class
  \<open>NavigableString\<close> itself.
\<close>

definition interesting_string_types :: "string \<Rightarrow> string_class option \<Rightarrow> bool" where
  "interesting_string_types name k =
     (if name = ''rt'' then k = Some RubyTextString
      else if name = ''rp'' then k = Some RubyParenthesisString
      else if name = ''style'' then k = Some Stylesheet
      else if name = ''script'' then k = Some Script
      else if name = ''template'' then k = Some TemplateString
      else k = None \<or> k = Some CData)"

fun all_strings :: "(string_class option \<Rightarrow> bool) \<Rightarrow> node \<Rightarrow> string list" where
  "all_strings types (NavigableString s) = (if types None then [s] else [])"
| "all_strings types (SpecialString k s) = (if types (Some k) then [s] else [])"
| "all_strings types (Tag name attrs contents) = concat (map (all_strings types) contents)"

fun get_text :: "node \<Rightarrow> string" where
  "get_text (NavigableString s) = s"
| "get_text (SpecialString k s) = s"
| "get_text (Tag name attrs contents) =
     concat (concat (map (all_strings (interesting_string_types name)) contents))"

text \<open>\<open>tag.descendants\<close>: everything below the tag, in document order.\<close>

fun descendants :: "node \<Rightarrow> node list" where
  "descendants (NavigableString s) = []"
| "descendants (SpecialString k s) = []"
| "descendants (Tag name attrs contents) = concat (map (\<lambda>c. c # descendants c) contents)"

text \<open>
  The strings below a tag in document order, of every class, each with its \<open>.parent\<close>.
\<close>

fun strings_with_parent :: "node \<Rightarrow> (string \<times> node) list" where
  "strings_with_parent (NavigableString s) = []"
| "strings_with_parent (SpecialString k s) = []"
| "strings_with_parent (Tag name attrs contents) =
     concat (map (\<lambda>c. case c of
                         NavigableString s \<Rightarrow> [(s, Tag name attrs contents)]
                       | SpecialString k s \<Rightarrow> [(s, Tag name attrs contents)]
                       | Tag _ _ _ \<Rightarrow> strings_with_parent c) contents)"

text \<open>\<open>tag[key]\<close>\<close>

fun getitem :: "node \<Rightarrow> string \<Rightarrow> py_exception + string" where
  "getitem (Tag name attrs contents) key =
     (case map_of attrs key of None \<Rightarrow> Inl (KeyError key) | Some v \<Rightarrow> Inr v)"
| "getitem (NavigableString s) key = Inl (KeyError key)"
| "getitem (SpecialString k s) key = Inl (KeyError key)"

text \<open>
  A keyword filter \<open>key=re.compile(...)\<close> of \<open>find\<close> and \<open>find_all\<close>: the tag has the
  attribute and the pattern is found in its value. (For \<open>class_\<close>, BeautifulSoup
  searches each class of the tag and the classes joined by blanks; a pattern with no
  blank is found there exactly when it is found in the whole value.)
\<close>

fun attr_search :: "string \<Rightarrow> (string \<Rightarrow> bool) \<Rightarrow> node \<Rightarrow> bool" where
  "attr_search key re (Tag name attrs contents) =
     (case map_of attrs key of None \<Rightarrow> False | Some v \<Rightarrow> re v)"
| "attr_search key re (NavigableString s) = False"
| "attr_search key re (SpecialString k s) = False"

fun has_name :: "string \<Rightarrow> node \<Rightarrow> bool" where
  "has_name n (Tag name attrs contents) = (name = n)"
| "has_name n (NavigableString s) = False"
| "has_name n (SpecialString k s) = False"

text \<open>\<open>soup.find_all(name, key=re)\<close> and \<open>soup.find(name, key=re)\<close>\<close>

definition find_all :: "string \<Rightarrow> (node \<Rightarrow> bool) \<Rightarrow> node \<Rightarrow> node list" where
  "find_all name p soup = filter (\<lambda>n. has_name name n \<and> p n) (descendants soup)"

definition find_tag :: "string \<Rightarrow> (node \<Rightarrow> bool) \<Rightarrow> node \<Rightarrow> node option" where
  "find_tag name p soup = List.find (\<lambda>n. has_name name n \<and> p n) (descendants soup)"

text \<open>
  \<open>soup.find(text=re)\<close>: the first string that matches, of whatever class, with its
  parent.
\<close>

definition find_string :: "(string \<Rightarrow> bool) \<Rightarrow> node \<Rightarrow> (string \<times> node) option" where
  "find_string re soup = List.find (\<lambda>(s, parent). re s) (strings_with_parent soup)"

text \<open>
  The loop \<open>for link in district_links\<close> that ends each \<open>search_district\<close>: the first
  link whose text contains the district name, compared in lower case, joined to the
  base URL.
\<close>

fun first_link :: "lib \<Rightarrow> string \<Rightarrow> string \<Rightarrow> node list \<Rightarrow> py_exception + string option" where
  "first_link L base_url dname [] = Inr None"
| "first_link L base_url dname (link # links) =
     (if contains (lower dname) (lower (get_text link))
      then (case getitem link ''href'' of
              Inl e \<Rightarrow> Inl e
            | Inr href \<Rightarrow>
                (case urljoin L base_url href of
                   Inl e \<Rightarrow> Inl e
                 | Inr url \<Rightarrow> Inr (Some url)))
      else first_link L base_url dname links)"

text \<open>
  The query string \<open>"&".join([f"{k}={quote(str(v))}" for k, v in params.items()])\<close>
\<close>

definition query_string :: "lib \<Rightarrow> (string \<times> string) list \<Rightarrow> string" where
  "query_string L params = join ''&'' (map (\<lambda>(k, v). k @ ''='' @ quote L v) params)"

section \<open>GreatSchoolsScraper\<close>

type_synonym dict = "string \<Rightarrow> pyval option"

definition gs_base_url :: string where
  "gs_base_url = ''https://www.greatschools.org''"

text \<open>The pattern \<open>r'/pennsylvania/.*-district/'\<close> of the link filter.\<close>

definition gs_href_re :: "string \<Rightarrow> bool" where
  "gs_href_re href = search_dotstar ''/pennsylvania/'' ''-district/'' href"

definition GreatSchoolsScraper_search_district ::
  "lib \<Rightarrow> world \<Rightarrow> string \<Rightarrow> string \<Rightarrow> run_state \<Rightarrow> (py_exception + string option) \<times> run_state" where
  "GreatSchoolsScraper_search_district L w dname state st =
     (let search_url = gs_base_url @ ''/search/search.page'';
          params = [(''q'', dname), (''state'', state), (''level'', ''district'')]
      in case get_page_source w 1000 (search_url @ ''?'' @ query_string L params) st of
           (None, st') \<Rightarrow> (Inr None, st')
         | (Some source, st') \<Rightarrow>
             if source = [] then (Inr None, st')
             else (case BeautifulSoup L source of
                     Inl e \<Rightarrow> (Inl e, st')
                   | Inr soup \<Rightarrow>
                       (let district_links = find_all ''a'' (attr_search ''href'' gs_href_re) soup
                        in (first_link L gs_base_url dname district_links, st'))))"

text \<open>The three extraction steps of \<open>GreatSchoolsScraper.scrape_district_data\<close>.\<close>

definition gs_extract_rating :: "node \<Rightarrow> dict \<Rightarrow> py_exception + dict" where
  "gs_extract_rating soup data =
     (case find_tag ''div'' (attr_search ''class'' (\<lambda>v. contains ''rating'' v \<or> contains ''score'' v)) soup of
        None \<Rightarrow> Inr data
      | Some rating_elem \<Rightarrow>
          (case search_digits (strip (get_text rating_elem)) of
             None \<Rightarrow> Inr data
           | Some g \<Rightarrow>
               (case py_int g of
                  Inl e \<Rightarrow> Inl e
                | Inr n \<Rightarrow> Inr (data(''greatschools_rating'' \<mapsto> PyInt n)))))"

definition gs_extract_enrollment :: "node \<Rightarrow> dict \<Rightarrow> py_exception + dict" where
  "gs_extract_enrollment soup data =
     (case find_string (\<lambda>s. contains ''students'' (lower s) \<or> contains ''enrollment'' (lower s)) soup of
        None \<Rightarrow> Inr data
      | Some (enrollment_elem, parent) \<Rightarrow>
          (case search_enrollment (get_text parent) of
             None \<Rightarrow> Inr data
           | Some g \<Rightarrow>
               (case py_int (replace '','' [] g) of
                  Inl e \<Rightarrow> Inl e
                | Inr n \<Rightarrow> Inr (data(''enrollment'' \<mapsto> PyInt n)))))"

definition gs_extract_ratio :: "node \<Rightarrow> dict \<Rightarrow> dict" where
  "gs_extract_ratio soup data =
     (case find_string (\<lambda>s. search_dotstar ''student'' ''teacher'' (lower s)
                          \<or> search_dotstar ''teacher'' ''student'' (lower s)) soup of
        None \<Rightarrow> data
      | Some (ratio_elem, parent) \<Rightarrow>
          (case search_ratio (get_text parent) of
             None \<Rightarrow> data
           | Some g \<Rightarrow> data(''student_teacher_ratio'' \<mapsto> PyStr g)))"

definition GreatSchoolsScraper_scrape_district_data ::
  "lib \<Rightarrow> world \<Rightarrow> string \<Rightarrow> run_state \<Rightarrow> (py_exception + dict) \<times> run_state" where
  "GreatSchoolsScraper_scrape_district_data L w district_url st =
     (case get_page_source w 1000 district_url st of
        (None, st') \<Rightarrow> (Inr Map.empty, st')
      | (Some source, st') \<Rightarrow>
          if source = [] then (Inr Map.empty, st')
          else (case BeautifulSoup L source of
                  Inl e \<Rightarrow> (Inl e, st')
                | Inr soup \<Rightarrow>
                    (case gs_extract_rating soup Map.empty of
                       Inl e \<Rightarrow> (Inl e, st')
                     | Inr data1 \<Rightarrow>
                         (case gs_extract_enrollment soup data1 of
                            Inl e \<Rightarrow> (Inl e, st')
                          | Inr data2 \<Rightarrow>
                              (Inr ((gs_extract_ratio soup data2)
                                      (''greatschools_url'' \<mapsto> PyStr district_url)),
                               st')))))"

section \<open>NicheScraper\<close>

definition niche_base_url :: string where
  "niche_base_url = ''https://www.niche.com''"

text \<open>The pattern \<open>r'/k12/d/.*pennsylvania'\<close> of the link filter.\<close>

definition niche_href_re :: "string \<Rightarrow> bool" where
  "niche_href_re href = search_dotstar ''/k12/d/'' ''pennsylvania'' href"

definition district_slug :: "string \<Rightarrow> string" where
  "district_slug dname =
     strip_chars ''-'' (replace ''school-district'' [] (replace '' '' ''-'' (lower dname)))"

definition potential_url :: "string \<Rightarrow> string \<Rightarrow> string" where
  "potential_url dname state =
     niche_base_url @ ''/k12/d/'' @ district_slug dname @ ''-'' @ state @ ''/''"

text \<open>The second half of \<open>NicheScraper.search_district\<close>, from \<open>search_url\<close> on.\<close>

definition niche_try_search ::
  "lib \<Rightarrow> world \<Rightarrow> string \<Rightarrow> string \<Rightarrow> run_state \<Rightarrow> (py_exception + string option) \<times> run_state" where
  "niche_try_search L w dname state st =
     (let search_url = niche_base_url @ ''/search/k12/'';
          params = [(''q'', dname @ '' '' @ state)]
      in case get_page_source w 1500 (search_url @ ''?'' @ query_string L params) st of
           (None, st') \<Rightarrow> (Inr None, st')
         | (Some source, st') \<Rightarrow>
             if source = [] then (Inr None, st')
             else (case BeautifulSoup L source of
                     Inl e \<Rightarrow> (Inl e, st')
                   | Inr soup \<Rightarrow>
                       (let district_links = find_all ''a'' (attr_search ''href'' niche_href_re) soup
                        in (first_link L niche_base_url dname district_links, st'))))"

definition NicheScraper_search_district ::
  "lib \<Rightarrow> world \<Rightarrow> string \<Rightarrow> string \<Rightarrow> run_state \<Rightarrow> (py_exception + string option) \<times> run_state" where
  "NicheScraper_search_district L w dname state st =
     (case get_page_source w 1500 (potential_url dname state) st of
        (None, st') \<Rightarrow> niche_try_search L w dname state st'
      | (Some source, st') \<Rightarrow>
          if source \<noteq> [] \<and> \<not> contains ''404'' source
          then (Inr (Some (potential_url dname state)), st')
          else niche_try_search L w dname state st')"

definition niche_extract_grade :: "node \<Rightarrow> dict \<Rightarrow> dict" where
  "niche_extract_grade soup data =
     (case find_tag ''div'' (attr_search ''class'' (\<lambda>v. contains ''grade'' v \<or> contains ''rating'' v)) soup of
        None \<Rightarrow> data
      | Some grade_elem \<Rightarrow>
          (case search_grade (strip (get_text grade_elem)) of
             None \<Rightarrow> data
           | Some g \<Rightarrow> data(''niche_rating'' \<mapsto> PyStr g)))"

definition NicheScraper_scrape_district_data ::
  "lib \<Rightarrow> world \<Rightarrow> string \<Rightarrow> run_state \<Rightarrow> (py_exception + dict) \<times> run_state" where
  "NicheScraper_scrape_district_data L w district_url st =
     (case get_page_source w 1500 district_url st of
        (None, st') \<Rightarrow> (Inr Map.empty, st')
      | (Some source, st') \<Rightarrow>
          if source = [] then (Inr Map.empty, st')
          else (case BeautifulSoup L source of
                  Inl e \<Rightarrow> (Inl e, st')
                | Inr soup \<Rightarrow>
                    (Inr ((niche_extract_grade soup Map.empty)
                            (''niche_url'' \<mapsto> PyStr district_url)),
                     st')))"

section \<open>SchoolDiggerScraper\<close>

definition sd_base_url :: string where
  "sd_base_url = ''https://www.schooldigger.com''"

text \<open>The pattern \<open>r'/go/PA/district\.aspx'\<close> of the link filter.\<close>

definition sd_href_re :: "string \<Rightarrow> bool" where
  "sd_href_re href = contains ''/go/PA/district.aspx'' href"

definition SchoolDiggerScraper_search_district ::
  "lib \<Rightarrow> world \<Rightarrow> string \<Rightarrow> string \<Rightarrow> run_state \<Rightarrow> (py_exception + string option) \<times> run_state" where
  "SchoolDiggerScraper_search_district L w dname state st =
     (let search_url = sd_base_url @ ''/go/PA/search.aspx'';
          params = [(''searchterm'', dname), (''searchtype'', ''district'')]
      in case get_page_source w 1000 (search_url @ ''?'' @ query_string L params) st of
           (None, st') \<Rightarrow> (Inr None, st')
         | (Some source, st') \<Rightarrow>
             if source = [] then (Inr None, st')
             else (case BeautifulSoup L source of
                     Inl e \<Rightarrow> (Inl e, st')
                   | Inr soup \<Rightarrow>
                       (let district_links = find_all ''a'' (attr_search ''href'' sd_href_re) soup
                        in (first_link L sd_base_url dname district_links, st'))))"

definition sd_extract_ranking :: "node \<Rightarrow> dict \<Rightarrow> dict" where
  "sd_extract_ranking soup data =
     (case find_string (\<lambda>s. contains ''rank'' (lower s) \<or> contains ''rating'' (lower s)) soup of
        None \<Rightarrow> data
      | Some (ranking_elem, parent) \<Rightarrow>
          (case search_digits (get_text parent) of
             None \<Rightarrow> data
           | Some g \<Rightarrow> data(''schooldigger_rating'' \<mapsto> PyStr g)))"

definition SchoolDiggerScraper_scrape_district_data ::
  "lib \<Rightarrow> world \<Rightarrow> string \<Rightarrow> run_state \<Rightarrow> (py_exception + dict) \<times> run_state" where
  "SchoolDiggerScraper_scrape_district_data L w district_url st =
     (case get_page_source w 1000 district_url st of
        (None, st') \<Rightarrow> (Inr Map.empty, st')
      | (Some source, st') \<Rightarrow>
          if source = [] then (Inr Map.empty, st')
          else (case BeautifulSoup L source of
                  Inl e \<Rightarrow> (Inl e, st')
                | Inr soup \<Rightarrow>
                    (Inr ((sd_extract_ranking soup Map.empty)
                            (''schooldigger_url'' \<mapsto> PyStr district_url)),
                     st')))"

section \<open>PASchoolDistrictScraper\<close>

text \<open>
  \<open>save_results\<close>: \<open>to_csv\<close> raises and leaves the files as they are, or the file is
  written anew with one row per record (the rows stand for their CSV lines).
\<close>

definition save_results ::
  "world \<Rightarrow> SchoolDistrictData list \<Rightarrow> string \<Rightarrow> run_state \<Rightarrow> (py_exception + unit) \<times> run_state" where
  "save_results w results filename st =
     (case to_csv w (length (log st)) filename of
        Some e \<Rightarrow> (Inl e, st)
      | None \<Rightarrow> (Inr (), st\<lparr>files := (files st)(filename \<mapsto> results)\<rparr>))"

text \<open>
  The three blocks of the loop body of \<open>scrape_all_districts\<close>. A URL is used when it
  is neither \<open>None\<close> nor the empty string (\<open>if gs_url:\<close>); the calls take the default
  \<open>state\<close> of each scraper.
\<close>

definition scrape_greatschools ::
  "lib \<Rightarrow> world \<Rightarrow> string \<Rightarrow> SchoolDistrictData \<Rightarrow> run_state
     \<Rightarrow> (py_exception + SchoolDistrictData) \<times> run_state" where
  "scrape_greatschools L w dname district_data st =
     (case GreatSchoolsScraper_search_district L w dname ''PA'' st of
        (Inl e, st1) \<Rightarrow> (Inl e, st1)
      | (Inr None, st1) \<Rightarrow> (Inr district_data, st1)
      | (Inr (Some gs_url), st1) \<Rightarrow>
          if gs_url = [] then (Inr district_data, st1)
          else (case GreatSchoolsScraper_scrape_district_data L w gs_url st1 of
                  (Inl e, st2) \<Rightarrow> (Inl e, st2)
                | (Inr gs_data, st2) \<Rightarrow>
                    (Inr (district_data
                           \<lparr>greatschools_rating := gs_data ''greatschools_rating'',
                            greatschools_url := gs_data ''greatschools_url'',
                            enrollment := gs_data ''enrollment'',
                            student_teacher_ratio := gs_data ''student_teacher_ratio''\<rparr>),
                     st2)))"

definition scrape_niche ::
  "lib \<Rightarrow> world \<Rightarrow> string \<Rightarrow> SchoolDistrictData \<Rightarrow> run_state
     \<Rightarrow> (py_exception + SchoolDistrictData) \<times> run_state" where
  "scrape_niche L w dname district_data st =
     (case NicheScraper_search_district L w dname ''pennsylvania'' st of
        (Inl e, st1) \<Rightarrow> (Inl e, st1)
      | (Inr None, st1) \<Rightarrow> (Inr district_data, st1)
      | (Inr (Some n_url), st1) \<Rightarrow>
          if n_url = [] then (Inr district_data, st1)
          else (case NicheScraper_scrape_district_data L w n_url st1 of
                  (Inl e, st2) \<Rightarrow> (Inl e, st2)
                | (Inr niche_data, st2) \<Rightarrow>
                    (Inr (district_data
                           \<lparr>niche_rating := niche_data ''niche_rating'',
                            niche_url := niche_data ''niche_url''\<rparr>),
                     st2)))"

definition scrape_schooldigger ::
  "lib \<Rightarrow> world \<Rightarrow> string \<Rightarrow> SchoolDistrictData \<Rightarrow> run_state
     \<Rightarrow> (py_exception + SchoolDistrictData) \<times> run_state" where
  "scrape_schooldigger L w dname district_data st =
     (case SchoolDiggerScraper_search_district L w dname ''PA'' st of
        (Inl e, st1) \<Rightarrow> (Inl e, st1)
      | (Inr None, st1) \<Rightarrow> (Inr district_data, st1)
      | (Inr (Some sd_url), st1) \<Rightarrow>
          if sd_url = [] then (Inr district_data, st1)
          else (case SchoolDiggerScraper_scrape_district_data L w sd_url st1 of
                  (Inl e, st2) \<Rightarrow> (Inl e, st2)
                | (Inr sd_data, st2) \<Rightarrow>
                    (Inr (district_data
                           \<lparr>schooldigger_rating := sd_data ''schooldigger_rating'',
                            schooldigger_url := sd_data ''schooldigger_url''\<rparr>),
                     st2)))"

text \<open>The record a pass of the loop starts from.\<close>

definition new_district_data :: "string \<Rightarrow> string \<Rightarrow> SchoolDistrictData" where
  "new_district_data dname timestamp =
     \<lparr>district_name = dname, county = [],
      greatschools_rating = None, greatschools_url = None,
      niche_rating = None, niche_url = None,
      schooldigger_rating = None, schooldigger_url = None,
      enrollment = None, student_teacher_ratio = None,
      last_updated = Some timestamp\<rparr>"

text \<open>One pass of the loop, up to \<open>results.append(district_data)\<close>.\<close>

definition scrape_district ::
  "lib \<Rightarrow> world \<Rightarrow> string \<Rightarrow> run_state \<Rightarrow> (py_exception + SchoolDistrictData) \<times> run_state" where
  "scrape_district L w dname st =
     (let district_data = new_district_data dname (now w (clock_reads st));
          st0 = st\<lparr>clock_reads := clock_reads st + 1\<rparr>
      in case scrape_greatschools L w dname district_data st0 of
           (Inl e, st1) \<Rightarrow> (Inl e, st1)
         | (Inr d1, st1) \<Rightarrow>
             (case scrape_niche L w dname d1 st1 of
                (Inl e, st2) \<Rightarrow> (Inl e, st2)
              | (Inr d2, st2) \<Rightarrow> scrape_schooldigger L w dname d2 st2))"

text \<open>
  The loop \<open>for i, district_name in enumerate(district_names)\<close>, from pass \<open>i\<close> on
  with the results so far.
\<close>

fun scrape_loop ::
  "lib \<Rightarrow> world \<Rightarrow> string \<Rightarrow> string list \<Rightarrow> nat \<Rightarrow> SchoolDistrictData list \<Rightarrow> run_state
     \<Rightarrow> (py_exception + SchoolDistrictData list) \<times> run_state" where
  "scrape_loop L w output_file [] i results st = (Inr results, st)"
| "scrape_loop L w output_file (dname # rest) i results st =
     (case scrape_district L w dname st of
        (Inl e, st1) \<Rightarrow> (Inl e, st1)
      | (Inr district_data, st1) \<Rightarrow>
          (let results1 = results @ [district_data]
           in if (i + 1) mod 10 = 0
              then (case save_results w results1 (''temp_'' @ output_file) st1 of
                      (Inl e, st2) \<Rightarrow> (Inl e, st2)
                    | (Inr _, st2) \<Rightarrow> scrape_loop L w output_file rest (i + 1) results1 st2)
              else scrape_loop L w output_file rest (i + 1) results1 st1))"

definition scrape_all_districts ::
  "lib \<Rightarrow> world \<Rightarrow> string list \<Rightarrow> string \<Rightarrow> run_state
     \<Rightarrow> (py_exception + SchoolDistrictData list) \<times> run_state" where
  "scrape_all_districts L w district_names output_file st =
     (case scrape_loop L w output_file district_names 0 [] st of
        (Inl e, st1) \<Rightarrow> (Inl e, st1)
      | (Inr results, st1) \<Rightarrow>
          (case save_results w results output_file st1 of
             (Inl e, st2) \<Rightarrow> (Inl e, st2)
           | (Inr _, st2) \<Rightarrow> (Inr results, st2)))"

section \<open>The fetches of a pass\<close>

text \<open>
  The URLs that the searches fetch, and the four fetches that a pass of the loop makes
  for a district when each of them returns nothing (their delays and URLs, in order):
  the GreatSchools search, the guessed Niche URL, the Niche search and the SchoolDigger
  search.
\<close>

definition gs_search_url :: "lib \<Rightarrow> string \<Rightarrow> string \<Rightarrow> string" where
  "gs_search_url L dname state =
     gs_base_url @ ''/search/search.page'' @ ''?''
       @ query_string L [(''q'', dname), (''state'', state), (''level'', ''district'')]"

definition niche_search_url :: "lib \<Rightarrow> string \<Rightarrow> string \<Rightarrow> string" where
  "niche_search_url L dname state =
     niche_base_url @ ''/search/k12/'' @ ''?'' @ query_string L [(''q'', dname @ '' '' @ state)]"

definition sd_search_url :: "lib \<Rightarrow> string \<Rightarrow> string" where
  "sd_search_url L dname =
     sd_base_url @ ''/go/PA/search.aspx'' @ ''?''
       @ query_string L [(''searchterm'', dname), (''searchtype'', ''district'')]"

definition pass_fetches :: "lib \<Rightarrow> string \<Rightarrow> (nat \<times> string) list" where
  "pass_fetches L dname =
     [(1000, gs_search_url L dname ''PA''),
      (1500, potential_url dname ''pennsylvania''),
      (1500, niche_search_url L dname ''pennsylvania''),
      (1000, sd_search_url L dname)]"

section \<open>Concrete pages, worlds and inputs\<close>

text \<open>The GET requests among the effects of a run.\<close>

definition is_get :: "event \<Rightarrow> bool" where
  "is_get e = (case e of Get _ \<Rightarrow> True | Sleep _ \<Rightarrow> False)"

text \<open>The state a run starts in: nothing logged, no file written, the clock unread.\<close>

definition state0 :: run_state where
  "state0 = \<lparr>log = [], files = Map.empty, clock_reads = 0\<rparr>"

text \<open>A world whose server answers every GET with status 304 and a body.\<close>

definition world_304 :: world where
  "world_304 =
     \<lparr>session_get = (\<lambda>n url. Inr \<lparr>status_code = 304, resp_text = ''stale page''\<rparr>),
      to_csv = (\<lambda>n filename. None),
      now = (\<lambda>k. ''2024-01-01T00:00:00'')\<rparr>"

text \<open>The results and the state when the loop has made its first \<open>k\<close> passes.\<close>

definition after_passes ::
  "lib \<Rightarrow> world \<Rightarrow> string \<Rightarrow> string list \<Rightarrow> nat \<Rightarrow> run_state
     \<Rightarrow> (py_exception + SchoolDistrictData list) \<times> run_state" where
  "after_passes L w output_file district_names k st =
     scrape_loop L w output_file (take k district_names) 0 [] st"

text \<open>A world in which every GET fails with a connection error; every file can be written.\<close>

definition world_down :: world where
  "world_down =
     \<lparr>session_get = (\<lambda>n url. Inl ConnectionError),
      to_csv = (\<lambda>n filename. None),
      now = (\<lambda>k. ''2024-01-01T00:00:00'')\<rparr>"

text \<open>
  Stand-ins for the library functions in the examples: a parser that makes one string
  of a page, and \<open>urljoin\<close> and \<open>quote\<close> as they act on a base URL without a path, an
  absolute path and a string of unreserved characters.
\<close>

definition lib_plain :: lib where
  "lib_plain =
     \<lparr>BeautifulSoup = (\<lambda>source. Inr (Tag ''[document]'' [] [NavigableString source])),
      urljoin = (\<lambda>base href. Inr (base @ href)),
      quote = (\<lambda>s. s)\<rparr>"

text \<open>Twenty-three district names, all different.\<close>

definition names23 :: "string list" where
  "names23 = map (\<lambda>c. ''District '' @ [c]) ''ABCDEFGHIJKLMNOPQRSTUVW''"


text \<open>A world whose server answers every GET with status 200 and the same body.\<close>

definition world_serving :: "string \<Rightarrow> world" where
  "world_serving body =
     \<lparr>session_get = (\<lambda>n url. Inr \<lparr>status_code = 200, resp_text = body\<rparr>),
      to_csv = (\<lambda>n filename. None),
      now = (\<lambda>k. ''2024-01-01T00:00:00'')\<rparr>"

text \<open>Three pages and their trees, and a library that parses them.\<close>

definition excellent_page :: string where
  "excellent_page = ''<div class=grade>Excellent</div>''"

definition bplus_page :: string where
  "bplus_page = ''<div class=grade>B+</div>''"

definition gs_results_page :: string where
  "gs_results_page =
     ''<a href=/pennsylvania/pittsburgh/pittsburgh-school-district/>Pittsburgh School District</a>''"

definition lib_examples :: lib where
  "lib_examples =
     \<lparr>BeautifulSoup = (\<lambda>source.
        if source = excellent_page
        then Inr (Tag ''[document]'' []
               [Tag ''div'' [(''class'', ''grade'')] [NavigableString ''Excellent'']])
        else if source = bplus_page
        then Inr (Tag ''[document]'' []
               [Tag ''div'' [(''class'', ''grade'')] [NavigableString ''B+'']])
        else if source = gs_results_page
        then Inr (Tag ''[document]'' []
               [Tag ''a'' [(''href'', ''/pennsylvania/pittsburgh/pittsburgh-school-district/'')]
                  [NavigableString ''Pittsburgh School District'']])
        else Inr (Tag ''[document]'' [] [NavigableString source])),
      urljoin = (\<lambda>base href. Inr (base @ href)),
      quote = (\<lambda>s. s)\<rparr>"

text \<open>An output row without its \<open>last_updated\<close> field.\<close>

definition without_timestamp :: "SchoolDistrictData \<Rightarrow> SchoolDistrictData" where
  "without_timestamp r = r\<lparr>last_updated := None\<rparr>"

text \<open>A world that serves the same pages as \<open>world_serving\<close>, at another time.\<close>

definition world_serving_later :: "string \<Rightarrow> world" where
  "world_serving_later body =
     \<lparr>session_get = (\<lambda>n url. Inr \<lparr>status_code = 200, resp_text = body\<rparr>),
      to_csv = (\<lambda>n filename. None),
      now = (\<lambda>k. ''2025-06-30T12:00:00'')\<rparr>"

text \<open>
  A world in which every GET fails and no file below the directory \<open>temp_sub\<close> can
  be written (the directory does not exist); every other file can.
\<close>

definition world_no_checkpoint_dir :: world where
  "world_no_checkpoint_dir =
     \<lparr>session_get = (\<lambda>n url. Inl ConnectionError),
      to_csv = (\<lambda>n filename. if startswith filename ''temp_sub/''
                              then Some (OSError filename) else None),
      now = (\<lambda>k. ''2024-01-01T00:00:00'')\<rparr>"

text \<open>
  A world in which the pages whose URL names Pittsburgh cannot be reached and every
  other page is served.
\<close>

definition world_pittsburgh_down :: world where
  "world_pittsburgh_down =
     \<lparr>session_get = (\<lambda>n url. if contains ''ittsburgh'' url then Inl ConnectionError
                             else Inr \<lparr>status_code = 200, resp_text = ''<html>Erie</html>''\<rparr>),
      to_csv = (\<lambda>n filename. None),
      now = (\<lambda>k. ''2024-01-01T00:00:00'')\<rparr>"

text \<open>
  The outcomes of a step in the two worlds: the same error, or two records that agree
  once the timestamp is left out.
\<close>

definition same_outcome ::
  "py_exception + SchoolDistrictData \<Rightarrow> py_exception + SchoolDistrictData \<Rightarrow> bool" where
  "same_outcome x y =
     (case (x, y) of
        (Inl e1, Inl e2) \<Rightarrow> e1 = e2
      | (Inr d1, Inr d2) \<Rightarrow> without_timestamp d1 = without_timestamp d2
      | _ \<Rightarrow> False)"

section \<open>The fetcher\<close>

lemma get_page_source_eq:
  "get_page_source w delay url st =
     ((case session_get w (Suc (length (log st))) url of
         Inl e \<Rightarrow> None
       | Inr r \<Rightarrow> if 400 \<le> status_code r \<and> status_code r < 600 then None else Some (resp_text r)),
      st\<lparr>log := log st @ [Sleep delay, Get url]\<rparr>)"
  by (simp add: get_page_source_def try_get_def raise_for_status_def Let_def split: sum.splits)

text \<open>
  C7, as the code has it. \<open>get_page_source\<close> raises nothing: its value is \<open>None\<close> when
  the GET raises (a network error, a timeout) and when the status of the response lies
  in 400..599, and the text of the response for every other status, the statuses below
  200 and from 300 to 399 included. Each call sleeps once and issues exactly one GET
  (no retry) and writes no file.
\<close>

theorem get_page_source_one_get_no_raise:
  "fst (get_page_source w delay url st) =
     (case session_get w (Suc (length (log st))) url of
        Inl e \<Rightarrow> None
      | Inr r \<Rightarrow> if 400 \<le> status_code r \<and> status_code r < 600 then None
                 else Some (resp_text r))
   \<and> log (snd (get_page_source w delay url st)) = log st @ [Sleep delay, Get url]
   \<and> length (filter is_get (log (snd (get_page_source w delay url st))))
       = length (filter is_get (log st)) + 1
   \<and> files (snd (get_page_source w delay url st)) = files st"
  by (simp add: get_page_source_eq is_get_def)

text \<open>
  C7 as the spec states it fails: a response with status 304 is not a 2xx response,
  yet its text is returned.
\<close>

theorem get_page_source_status_304_returned:
  "session_get world_304 1 ''https://www.niche.com/''
     = Inr \<lparr>status_code = 304, resp_text = ''stale page''\<rparr>
   \<and> get_page_source world_304 1500 ''https://www.niche.com/'' state0
       = (Some ''stale page'', state0\<lparr>log := [Sleep 1500, Get ''https://www.niche.com/'']\<rparr>)"
  by (simp add: get_page_source_eq world_304_def state0_def)

section \<open>Locating a district\<close>

lemma first_link_Some:
  "(\<And>n. n \<in> set links \<Longrightarrow> attr_search ''href'' re n) \<Longrightarrow>
   first_link L b d links = Inr (Some url) \<Longrightarrow>
   \<exists>href. re href \<and> urljoin L b href = Inr url"
proof (induction links)
  case Nil
  then show ?case by simp
next
  case (Cons link links)
  have "attr_search ''href'' re link" using Cons.prems(1) by simp
  then obtain name attrs contents href where
    link: "link = Tag name attrs contents" and href: "map_of attrs ''href'' = Some href" "re href"
    by (cases link) (auto split: option.splits)
  show ?case
  proof (cases "contains (lower d) (lower (get_text link))")
    case True
    then have "urljoin L b href = Inr url"
      using Cons.prems(2) link href by (auto split: sum.splits)
    then show ?thesis using href(2) by blast
  next
    case False
    then show ?thesis using Cons by simp
  qed
qed

lemma find_all_sat: "n \<in> set (find_all name p soup) \<Longrightarrow> p n"
  by (simp add: find_all_def)

lemma gs_search_Some:
  assumes "fst (GreatSchoolsScraper_search_district L w d s st) = Inr (Some url)"
  shows "\<exists>href. gs_href_re href \<and> urljoin L gs_base_url href = Inr url"
  using assms
    first_link_Some [of "find_all ''a'' (attr_search ''href'' gs_href_re) soup" gs_href_re
      L gs_base_url d url for soup]
  by (auto simp: GreatSchoolsScraper_search_district_def get_page_source_eq Let_def find_all_sat
      split: sum.splits option.splits if_splits)

lemma niche_try_search_Some:
  assumes "fst (niche_try_search L w d s st) = Inr (Some url)"
  shows "\<exists>href. niche_href_re href \<and> urljoin L niche_base_url href = Inr url"
  using assms
    first_link_Some [of "find_all ''a'' (attr_search ''href'' niche_href_re) soup" niche_href_re
      L niche_base_url d url for soup]
  by (auto simp: niche_try_search_def get_page_source_eq Let_def find_all_sat
      split: sum.splits option.splits if_splits)

lemma niche_search_Some:
  assumes "fst (NicheScraper_search_district L w d s st) = Inr (Some url)"
  shows "url = potential_url d s
         \<or> (\<exists>href. niche_href_re href \<and> urljoin L niche_base_url href = Inr url)"
proof -
  obtain src st1 where g: "get_page_source w 1500 (potential_url d s) st = (src, st1)"
    by (cases "get_page_source w 1500 (potential_url d s) st")
  show ?thesis
  proof (cases "\<exists>source. src = Some source \<and> source \<noteq> [] \<and> \<not> contains ''404'' source")
    case True
    then show ?thesis
      using assms g by (auto simp: NicheScraper_search_district_def)
  next
    case False
    then have "NicheScraper_search_district L w d s st = niche_try_search L w d s st1"
      using g by (auto simp: NicheScraper_search_district_def split: option.splits)
    then show ?thesis using assms niche_try_search_Some by auto
  qed
qed

lemma niche_try_search_log:
  "log (snd (niche_try_search L w n s st)) =
     log st @ [Sleep 1500, Get (niche_base_url @ ''/search/k12/'' @ ''?''
                                 @ query_string L [(''q'', n @ '' '' @ s)])]"
  by (simp add: niche_try_search_def get_page_source_eq Let_def split: sum.splits option.splits)

lemma pittsburgh_url:
  "potential_url ''Pittsburgh School District'' ''pennsylvania''
     = ''https://www.niche.com/k12/d/pittsburgh-pennsylvania/''"
  by code_simp

lemma columbus_url:
  "potential_url ''Columbus City School District'' ''ohio''
     = ''https://www.niche.com/k12/d/columbus-city-ohio/''"
  by code_simp

lemma world_serving_fetch:
  "get_page_source (world_serving body) delay url st
     = (Some body, st\<lparr>log := log st @ [Sleep delay, Get url]\<rparr>)"
  by (simp add: get_page_source_eq world_serving_def)

text \<open>
  C4, as the code has it. The Niche locate step builds the guessed URL from the slug
  of the name and the state, and fetches it first. It returns the guessed URL, with
  that one GET made, if and only if the fetch returned a body that is not empty and
  does not contain \<open>404\<close>. Otherwise (the fetch failed, the body is empty, or the body
  contains \<open>404\<close>) it goes on to the search: a second GET, to the search URL, and the
  result is that of scanning the search page.
\<close>

theorem niche_guess_accepted_iff:
  "((NicheScraper_search_district L w dname state st
       = (Inr (Some (potential_url dname state)),
          snd (get_page_source w 1500 (potential_url dname state) st)))
     = (\<exists>source. fst (get_page_source w 1500 (potential_url dname state) st) = Some source
                \<and> source \<noteq> [] \<and> \<not> contains ''404'' source))
   \<and> (\<not> (\<exists>source. fst (get_page_source w 1500 (potential_url dname state) st) = Some source
                \<and> source \<noteq> [] \<and> \<not> contains ''404'' source)
      \<longrightarrow> NicheScraper_search_district L w dname state st
            = niche_try_search L w dname state
                (snd (get_page_source w 1500 (potential_url dname state) st))
          \<and> log (snd (NicheScraper_search_district L w dname state st))
            = log st @ [Sleep 1500, Get (potential_url dname state),
                        Sleep 1500,
                        Get (niche_base_url @ ''/search/k12/'' @ ''?''
                               @ query_string L [(''q'', dname @ '' '' @ state)])])
   \<and> log (snd (get_page_source w 1500 (potential_url dname state) st))
       = log st @ [Sleep 1500, Get (potential_url dname state)]
   \<and> potential_url dname state
       = niche_base_url @ ''/k12/d/'' @ district_slug dname @ ''-'' @ state @ ''/''"
proof -
  let ?p = "potential_url dname state"
  let ?ok = "\<exists>source. fst (get_page_source w 1500 ?p st) = Some source
                \<and> source \<noteq> [] \<and> \<not> contains ''404'' source"
  obtain src st1 where g: "get_page_source w 1500 ?p st = (src, st1)"
    by (cases "get_page_source w 1500 ?p st")
  have l1: "log st1 = log st @ [Sleep 1500, Get ?p]"
    using g by (auto simp: get_page_source_eq)
  have fall: "\<not> ?ok \<Longrightarrow> NicheScraper_search_district L w dname state st
            = niche_try_search L w dname state st1"
    using g by (auto simp: NicheScraper_search_district_def split: option.splits)
  have acc: "?ok \<Longrightarrow> NicheScraper_search_district L w dname state st = (Inr (Some ?p), st1)"
    using g by (auto simp: NicheScraper_search_district_def split: option.splits)
  have longer: "log (snd (niche_try_search L w dname state st1)) \<noteq> log st1"
    by (simp add: niche_try_search_log)
  have 1: "(NicheScraper_search_district L w dname state st = (Inr (Some ?p), snd (get_page_source w 1500 ?p st)))
            = ?ok"
  proof (cases ?ok)
    case True
    then show ?thesis using acc g by simp
  next
    case False
    have "NicheScraper_search_district L w dname state st \<noteq> (Inr (Some ?p), st1)"
    proof
      assume "NicheScraper_search_district L w dname state st = (Inr (Some ?p), st1)"
      then have "snd (niche_try_search L w dname state st1) = st1"
        using fall [OF False] by simp
      then show False using longer by simp
    qed
    then show ?thesis using False g by simp
  qed
  have 2: "\<not> ?ok \<longrightarrow> NicheScraper_search_district L w dname state st
            = niche_try_search L w dname state (snd (get_page_source w 1500 ?p st))
          \<and> log (snd (NicheScraper_search_district L w dname state st))
            = log st @ [Sleep 1500, Get ?p, Sleep 1500,
                        Get (niche_base_url @ ''/search/k12/'' @ ''?''
                               @ query_string L [(''q'', dname @ '' '' @ state)])]"
    using fall g l1 by (simp add: niche_try_search_log)
  have 3: "log (snd (get_page_source w 1500 ?p st)) = log st @ [Sleep 1500, Get ?p]"
    using g l1 by simp
  have 4: "?p = niche_base_url @ ''/k12/d/'' @ district_slug dname @ ''-'' @ state @ ''/''"
    by (simp add: potential_url_def)
  show ?thesis by (intro conjI 1 2 3 4)
qed

text \<open>
  C4 as the spec states it fails: the fetch of the guessed URL succeeds with an empty
  body, which does not contain \<open>404\<close>, and the guessed URL is not returned.
\<close>

theorem empty_body_is_not_accepted:
  "potential_url ''Pittsburgh School District'' ''pennsylvania''
     = ''https://www.niche.com/k12/d/pittsburgh-pennsylvania/''
   \<and> fst (get_page_source (world_serving []) 1500
            ''https://www.niche.com/k12/d/pittsburgh-pennsylvania/'' state0) = Some []
   \<and> \<not> contains ''404'' []
   \<and> fst (NicheScraper_search_district lib_plain (world_serving [])
            ''Pittsburgh School District'' ''pennsylvania'' state0) = Inr None"
  by (simp add: pittsburgh_url NicheScraper_search_district_def niche_try_search_def
      world_serving_fetch Let_def)

text \<open>
  C4, as the code has it, at a guessed page that is served and at one whose body
  contains \<open>404\<close>.
\<close>

theorem niche_guess_examples:
  "(\<exists>source. fst (get_page_source (world_serving ''<html>Pittsburgh</html>'') 1500
                   (potential_url ''Pittsburgh School District'' ''pennsylvania'') state0)
                = Some source \<and> source \<noteq> [] \<and> \<not> contains ''404'' source)
   \<and> fst (NicheScraper_search_district lib_plain (world_serving ''<html>Pittsburgh</html>'')
            ''Pittsburgh School District'' ''pennsylvania'' state0)
       = Inr (Some ''https://www.niche.com/k12/d/pittsburgh-pennsylvania/'')
   \<and> \<not> (\<exists>source. fst (get_page_source (world_serving ''<html>404 Not Found</html>'') 1500
                   (potential_url ''Pittsburgh School District'' ''pennsylvania'') state0)
                = Some source \<and> source \<noteq> [] \<and> \<not> contains ''404'' source)
   \<and> NicheScraper_search_district lib_plain (world_serving ''<html>404 Not Found</html>'')
            ''Pittsburgh School District'' ''pennsylvania'' state0
       = niche_try_search lib_plain (world_serving ''<html>404 Not Found</html>'')
            ''Pittsburgh School District'' ''pennsylvania''
            (snd (get_page_source (world_serving ''<html>404 Not Found</html>'') 1500
                   (potential_url ''Pittsburgh School District'' ''pennsylvania'') state0))"
proof -
  let ?n = "''Pittsburgh School District''" and ?s = "''pennsylvania''"
  let ?good = "world_serving ''<html>Pittsburgh</html>''"
  let ?bad = "world_serving ''<html>404 Not Found</html>''"
  have a: "\<exists>source. fst (get_page_source ?good 1500 (potential_url ?n ?s) state0) = Some source
                \<and> source \<noteq> [] \<and> \<not> contains ''404'' source"
    by (simp add: world_serving_fetch)
  have b: "\<not> (\<exists>source. fst (get_page_source ?bad 1500 (potential_url ?n ?s) state0) = Some source
                \<and> source \<noteq> [] \<and> \<not> contains ''404'' source)"
    by (simp add: world_serving_fetch)
  have "NicheScraper_search_district lib_plain ?good ?n ?s state0
          = (Inr (Some (potential_url ?n ?s)),
             snd (get_page_source ?good 1500 (potential_url ?n ?s) state0))"
    using niche_guess_accepted_iff [of lib_plain ?good ?n ?s state0] a by blast
  then have c: "fst (NicheScraper_search_district lib_plain ?good ?n ?s state0)
       = Inr (Some ''https://www.niche.com/k12/d/pittsburgh-pennsylvania/'')"
    by (simp add: pittsburgh_url)
  have d: "NicheScraper_search_district lib_plain ?bad ?n ?s state0
       = niche_try_search lib_plain ?bad ?n ?s
            (snd (get_page_source ?bad 1500 (potential_url ?n ?s) state0))"
    using niche_guess_accepted_iff [of lib_plain ?bad ?n ?s state0] b by blast
  show ?thesis by (intro conjI a c b d)
qed

text \<open>
  C10, as the code has it. Whatever the \<open>state\<close> argument, a URL returned by the
  GreatSchools locate step is \<open>urljoin\<close> of the base URL and an \<open>href\<close> that matched the
  pattern \<open>/pennsylvania/.*-district/\<close>, and a URL returned by the Niche locate step is
  either the guessed URL, built from the slug and the \<open>state\<close> argument with no link
  filter applied, or \<open>urljoin\<close> of the base URL and an \<open>href\<close> that matched
  \<open>/k12/d/.*pennsylvania\<close>. The link filters do not depend on \<open>state\<close>.
\<close>
theorem located_urls_come_from_guess_or_filtered_links:
  "(fst (GreatSchoolsScraper_search_district L w dname state st) = Inr (Some url)
      \<longrightarrow> (\<exists>href. gs_href_re href \<and> urljoin L gs_base_url href = Inr url))
   \<and> (fst (NicheScraper_search_district L w dname state st) = Inr (Some url)
      \<longrightarrow> url = potential_url dname state
          \<or> (\<exists>href. niche_href_re href \<and> urljoin L niche_base_url href = Inr url))"
  using gs_search_Some [of L w dname state st url] niche_search_Some [of L w dname state st url]
  by blast

text \<open>
  C10 as the spec states it fails: with the state \<open>ohio\<close> the Niche locate step returns
  the guessed URL of an Ohio district, which no link filter has seen and which does not
  match the Pennsylvania pattern.
\<close>

theorem other_state_gives_other_state_url:
  "fst (NicheScraper_search_district lib_plain (world_serving ''<html>Columbus City Schools</html>'')
          ''Columbus City School District'' ''ohio'' state0)
     = Inr (Some ''https://www.niche.com/k12/d/columbus-city-ohio/'')
   \<and> \<not> contains ''pennsylvania'' ''https://www.niche.com/k12/d/columbus-city-ohio/''
   \<and> \<not> niche_href_re ''https://www.niche.com/k12/d/columbus-city-ohio/''"
proof -
  have "\<not> contains ''404'' ''<html>Columbus City Schools</html>''" by simp
  then have a: "fst (NicheScraper_search_district lib_plain
          (world_serving ''<html>Columbus City Schools</html>'')
          ''Columbus City School District'' ''ohio'' state0)
     = Inr (Some ''https://www.niche.com/k12/d/columbus-city-ohio/'')"
    by (simp add: NicheScraper_search_district_def world_serving_fetch columbus_url)
  have b: "\<not> contains ''pennsylvania'' ''https://www.niche.com/k12/d/columbus-city-ohio/''"
    by code_simp
  have c: "\<not> niche_href_re ''https://www.niche.com/k12/d/columbus-city-ohio/''"
    by code_simp
  show ?thesis by (intro conjI a b c)
qed

text \<open>
  C10, as the code has it, at a GreatSchools search page with one matching link and at
  a Niche guess that is accepted.
\<close>

theorem located_url_examples:
  "fst (GreatSchoolsScraper_search_district lib_examples (world_serving gs_results_page)
          ''Pittsburgh School District'' ''PA'' state0)
     = Inr (Some ''https://www.greatschools.org/pennsylvania/pittsburgh/pittsburgh-school-district/'')
   \<and> (\<exists>href. gs_href_re href
         \<and> urljoin lib_examples gs_base_url href
            = Inr ''https://www.greatschools.org/pennsylvania/pittsburgh/pittsburgh-school-district/'')
   \<and> fst (NicheScraper_search_district lib_plain (world_serving ''<html>Pittsburgh</html>'')
            ''Pittsburgh School District'' ''pennsylvania'' state0)
       = Inr (Some ''https://www.niche.com/k12/d/pittsburgh-pennsylvania/'')
   \<and> (''https://www.niche.com/k12/d/pittsburgh-pennsylvania/''
         = potential_url ''Pittsburgh School District'' ''pennsylvania''
       \<or> (\<exists>href. niche_href_re href
             \<and> urljoin lib_plain niche_base_url href
                = Inr ''https://www.niche.com/k12/d/pittsburgh-pennsylvania/''))"
proof -
  let ?g = "''https://www.greatschools.org/pennsylvania/pittsburgh/pittsburgh-school-district/''"
  let ?p = "''https://www.niche.com/k12/d/pittsburgh-pennsylvania/''"
  have low: "contains (lower ''Pittsburgh School District'') (lower ''Pittsburgh School District'')"
    by code_simp
  have re: "gs_href_re ''/pennsylvania/pittsburgh/pittsburgh-school-district/''"
    by code_simp
  have a: "fst (GreatSchoolsScraper_search_district lib_examples (world_serving gs_results_page)
          ''Pittsburgh School District'' ''PA'' state0) = Inr (Some ?g)"
    by (simp add: GreatSchoolsScraper_search_district_def world_serving_fetch Let_def
        lib_examples_def gs_results_page_def excellent_page_def bplus_page_def find_all_def
        interesting_string_types_def
        low re gs_base_url_def)
  have b: "\<exists>href. gs_href_re href \<and> urljoin lib_examples gs_base_url href = Inr ?g"
    using located_urls_come_from_guess_or_filtered_links
      [of lib_examples "world_serving gs_results_page" "''Pittsburgh School District''" "''PA''"
          state0 ?g] a
    by blast
  have "\<not> contains ''404'' ''<html>Pittsburgh</html>''" by simp
  then have c: "fst (NicheScraper_search_district lib_plain (world_serving ''<html>Pittsburgh</html>'')
            ''Pittsburgh School District'' ''pennsylvania'' state0) = Inr (Some ?p)"
    by (simp add: NicheScraper_search_district_def world_serving_fetch pittsburgh_url)
  have d: "?p = potential_url ''Pittsburgh School District'' ''pennsylvania''
       \<or> (\<exists>href. niche_href_re href \<and> urljoin lib_plain niche_base_url href = Inr ?p)"
    using located_urls_come_from_guess_or_filtered_links
      [of lib_plain "world_serving ''<html>Pittsburgh</html>''" "''Pittsburgh School District''"
          "''pennsylvania''" state0 ?p] c
    by blast
  show ?thesis by (intro conjI a b c d)
qed

section \<open>The extractors\<close>











lemma gs_data_failed:
  assumes "fst (get_page_source w 1000 u st) \<in> {None, Some []}"
  shows "fst (GreatSchoolsScraper_scrape_district_data L w u st) = Inr Map.empty"
  using assms
  by (cases "get_page_source w 1000 u st")
     (auto simp: GreatSchoolsScraper_scrape_district_data_def)

lemma niche_data_failed:
  assumes "fst (get_page_source w 1500 u st) \<in> {None, Some []}"
  shows "fst (NicheScraper_scrape_district_data L w u st) = Inr Map.empty"
  using assms
  by (cases "get_page_source w 1500 u st")
     (auto simp: NicheScraper_scrape_district_data_def)

lemma sd_data_failed:
  assumes "fst (get_page_source w 1000 u st) \<in> {None, Some []}"
  shows "fst (SchoolDiggerScraper_scrape_district_data L w u st) = Inr Map.empty"
  using assms
  by (cases "get_page_source w 1000 u st")
     (auto simp: SchoolDiggerScraper_scrape_district_data_def)

lemma gs_data_url:
  assumes "fst (GreatSchoolsScraper_scrape_district_data L w u st) = Inr data"
    and "fst (get_page_source w 1000 u st) \<notin> {None, Some []}"
  shows "data ''greatschools_url'' = Some (PyStr u)"
  using assms
  by (cases "get_page_source w 1000 u st")
     (auto simp: GreatSchoolsScraper_scrape_district_data_def
       split: option.splits sum.splits if_splits)

lemma niche_data_url:
  assumes "fst (NicheScraper_scrape_district_data L w u st) = Inr data"
    and "fst (get_page_source w 1500 u st) \<notin> {None, Some []}"
  shows "data ''niche_url'' = Some (PyStr u)"
  using assms
  by (cases "get_page_source w 1500 u st")
     (auto simp: NicheScraper_scrape_district_data_def
       split: option.splits sum.splits if_splits)

lemma sd_data_url:
  assumes "fst (SchoolDiggerScraper_scrape_district_data L w u st) = Inr data"
    and "fst (get_page_source w 1000 u st) \<notin> {None, Some []}"
  shows "data ''schooldigger_url'' = Some (PyStr u)"
  using assms
  by (cases "get_page_source w 1000 u st")
     (auto simp: SchoolDiggerScraper_scrape_district_data_def
       split: option.splits sum.splits if_splits)

text \<open>
  C5, as the code has it. For each site's \<open>scrape_district_data\<close>: when the fetch fails
  or returns an empty body, it raises nothing and returns the empty map, which does not
  hold the source URL; and every map that it returns after a fetch that delivered a
  page holds the source URL under the site's URL key.
\<close>

theorem extract_has_url_unless_fetch_failed:
  "(fst (get_page_source w 1000 district_url st) \<in> {None, Some []}
      \<longrightarrow> fst (GreatSchoolsScraper_scrape_district_data L w district_url st) = Inr Map.empty)
   \<and> (fst (get_page_source w 1000 district_url st) \<notin> {None, Some []}
       \<and> fst (GreatSchoolsScraper_scrape_district_data L w district_url st) = Inr gs_data
      \<longrightarrow> gs_data ''greatschools_url'' = Some (PyStr district_url))
   \<and> (fst (get_page_source w 1500 district_url st) \<in> {None, Some []}
      \<longrightarrow> fst (NicheScraper_scrape_district_data L w district_url st) = Inr Map.empty)
   \<and> (fst (get_page_source w 1500 district_url st) \<notin> {None, Some []}
       \<and> fst (NicheScraper_scrape_district_data L w district_url st) = Inr niche_data
      \<longrightarrow> niche_data ''niche_url'' = Some (PyStr district_url))
   \<and> (fst (get_page_source w 1000 district_url st) \<in> {None, Some []}
      \<longrightarrow> fst (SchoolDiggerScraper_scrape_district_data L w district_url st) = Inr Map.empty)
   \<and> (fst (get_page_source w 1000 district_url st) \<notin> {None, Some []}
       \<and> fst (SchoolDiggerScraper_scrape_district_data L w district_url st) = Inr sd_data
      \<longrightarrow> sd_data ''schooldigger_url'' = Some (PyStr district_url))"
  using gs_data_failed [of w district_url st L] gs_data_url [of L w district_url st gs_data]
    niche_data_failed [of w district_url st L] niche_data_url [of L w district_url st niche_data]
    sd_data_failed [of w district_url st L] sd_data_url [of L w district_url st sd_data]
  by blast

text \<open>
  C5 as the spec states it fails: after a failed fetch the returned map is empty, so
  the source URL is not always in the returned map.
\<close>

theorem failed_fetch_map_has_no_url:
  "fst (get_page_source world_down 1500 ''https://www.niche.com/k12/d/pittsburgh-pennsylvania/'' state0)
     = None
   \<and> fst (NicheScraper_scrape_district_data lib_plain world_down
            ''https://www.niche.com/k12/d/pittsburgh-pennsylvania/'' state0) = Inr Map.empty
   \<and> (Map.empty :: dict) ''niche_url'' = None"
  by (simp add: NicheScraper_scrape_district_data_def get_page_source_eq world_down_def)

text \<open>C5, as the code has it, at a failed fetch and at a page that is served.\<close>

theorem extract_example:
  "fst (get_page_source world_down 1500 ''https://www.niche.com/k12/d/pittsburgh-pennsylvania/'' state0)
     \<in> {None, Some []}
   \<and> fst (NicheScraper_scrape_district_data lib_examples world_down
            ''https://www.niche.com/k12/d/pittsburgh-pennsylvania/'' state0) = Inr Map.empty
   \<and> fst (get_page_source (world_serving bplus_page) 1500
            ''https://www.niche.com/k12/d/pittsburgh-pennsylvania/'' state0) \<notin> {None, Some []}
   \<and> fst (NicheScraper_scrape_district_data lib_examples (world_serving bplus_page)
            ''https://www.niche.com/k12/d/pittsburgh-pennsylvania/'' state0)
       = Inr [''niche_rating'' \<mapsto> PyStr ''B+'',
              ''niche_url'' \<mapsto> PyStr ''https://www.niche.com/k12/d/pittsburgh-pennsylvania/'']
   \<and> [''niche_rating'' \<mapsto> PyStr ''B+'',
        ''niche_url'' \<mapsto> PyStr ''https://www.niche.com/k12/d/pittsburgh-pennsylvania/'']
         ''niche_url'' = Some (PyStr ''https://www.niche.com/k12/d/pittsburgh-pennsylvania/'')"
proof -
  let ?u = "''https://www.niche.com/k12/d/pittsburgh-pennsylvania/''"
  let ?data = "[''niche_rating'' \<mapsto> PyStr ''B+'', ''niche_url'' \<mapsto> PyStr ?u]"
  have a: "fst (get_page_source world_down 1500 ?u state0) \<in> {None, Some []}"
    by (simp add: get_page_source_eq world_down_def)
  have b: "fst (get_page_source (world_serving bplus_page) 1500 ?u state0) \<notin> {None, Some []}"
    by (simp add: get_page_source_eq world_serving_def bplus_page_def)
  have c: "fst (NicheScraper_scrape_district_data lib_examples world_down ?u state0) = Inr Map.empty"
    using extract_has_url_unless_fetch_failed [of world_down ?u state0 lib_examples] a by blast
  have d: "fst (NicheScraper_scrape_district_data lib_examples (world_serving bplus_page) ?u state0)
             = Inr ?data"
    by (simp add: NicheScraper_scrape_district_data_def get_page_source_eq world_serving_def
      lib_examples_def excellent_page_def bplus_page_def niche_extract_grade_def find_tag_def
      strip_def search_grade_def is_grade_letter_def is_space_def interesting_string_types_def)
  have e: "?data ''niche_url'' = Some (PyStr ?u)"
    using extract_has_url_unless_fetch_failed
      [of "world_serving bplus_page" ?u state0 lib_examples _ ?data] b d
    by blast
  show ?thesis by (intro conjI a c b d e)
qed

section \<open>The passes of the aggregator\<close>

lemma gs_search_frame:
  "files (snd (GreatSchoolsScraper_search_district L w d s st)) = files st \<and>
   clock_reads (snd (GreatSchoolsScraper_search_district L w d s st)) = clock_reads st"
  by (simp add: GreatSchoolsScraper_search_district_def get_page_source_eq Let_def
      split: sum.splits option.splits)

lemma niche_try_search_frame:
  "files (snd (niche_try_search L w d s st)) = files st \<and>
   clock_reads (snd (niche_try_search L w d s st)) = clock_reads st"
  by (simp add: niche_try_search_def get_page_source_eq Let_def
      split: sum.splits option.splits)

lemma niche_search_frame:
  "files (snd (NicheScraper_search_district L w d s st)) = files st \<and>
   clock_reads (snd (NicheScraper_search_district L w d s st)) = clock_reads st"
  by (simp add: NicheScraper_search_district_def get_page_source_eq niche_try_search_frame
      split: sum.splits option.splits)

lemma sd_search_frame:
  "files (snd (SchoolDiggerScraper_search_district L w d s st)) = files st \<and>
   clock_reads (snd (SchoolDiggerScraper_search_district L w d s st)) = clock_reads st"
  by (simp add: SchoolDiggerScraper_search_district_def get_page_source_eq Let_def
      split: sum.splits option.splits)

lemma gs_data_frame:
  "files (snd (GreatSchoolsScraper_scrape_district_data L w u st)) = files st \<and>
   clock_reads (snd (GreatSchoolsScraper_scrape_district_data L w u st)) = clock_reads st"
  by (simp add: GreatSchoolsScraper_scrape_district_data_def get_page_source_eq
      split: sum.splits option.splits)

lemma niche_data_frame:
  "files (snd (NicheScraper_scrape_district_data L w u st)) = files st \<and>
   clock_reads (snd (NicheScraper_scrape_district_data L w u st)) = clock_reads st"
  by (simp add: NicheScraper_scrape_district_data_def get_page_source_eq
      split: sum.splits option.splits)

lemma sd_data_frame:
  "files (snd (SchoolDiggerScraper_scrape_district_data L w u st)) = files st \<and>
   clock_reads (snd (SchoolDiggerScraper_scrape_district_data L w u st)) = clock_reads st"
  by (simp add: SchoolDiggerScraper_scrape_district_data_def get_page_source_eq
      split: sum.splits option.splits)

lemma scrape_greatschools_frame:
  "files (snd (scrape_greatschools L w n d st)) = files st \<and>
   clock_reads (snd (scrape_greatschools L w n d st)) = clock_reads st"
proof (cases "GreatSchoolsScraper_search_district L w n ''PA'' st")
  case (Pair r st1)
  have f1: "files st1 = files st \<and> clock_reads st1 = clock_reads st"
    using gs_search_frame [of L w n "''PA''" st] Pair by simp
  show ?thesis
  proof (cases "\<exists>u. r = Inr (Some u) \<and> u \<noteq> []")
    case True
    then obtain u where u: "r = Inr (Some u)" "u \<noteq> []" by blast
    show ?thesis
      using Pair u f1 gs_data_frame [of L w u st1]
      by (cases "GreatSchoolsScraper_scrape_district_data L w u st1")
         (auto simp: scrape_greatschools_def split: sum.splits)
  next
    case False
    then show ?thesis
      using Pair f1 by (auto simp: scrape_greatschools_def split: sum.splits option.splits)
  qed
qed

lemma scrape_niche_frame:
  "files (snd (scrape_niche L w n d st)) = files st \<and>
   clock_reads (snd (scrape_niche L w n d st)) = clock_reads st"
proof (cases "NicheScraper_search_district L w n ''pennsylvania'' st")
  case (Pair r st1)
  have f1: "files st1 = files st \<and> clock_reads st1 = clock_reads st"
    using niche_search_frame [of L w n "''pennsylvania''" st] Pair by simp
  show ?thesis
  proof (cases "\<exists>u. r = Inr (Some u) \<and> u \<noteq> []")
    case True
    then obtain u where u: "r = Inr (Some u)" "u \<noteq> []" by blast
    show ?thesis
      using Pair u f1 niche_data_frame [of L w u st1]
      by (cases "NicheScraper_scrape_district_data L w u st1")
         (auto simp: scrape_niche_def split: sum.splits)
  next
    case False
    then show ?thesis
      using Pair f1 by (auto simp: scrape_niche_def split: sum.splits option.splits)
  qed
qed

lemma scrape_schooldigger_frame:
  "files (snd (scrape_schooldigger L w n d st)) = files st \<and>
   clock_reads (snd (scrape_schooldigger L w n d st)) = clock_reads st"
proof (cases "SchoolDiggerScraper_search_district L w n ''PA'' st")
  case (Pair r st1)
  have f1: "files st1 = files st \<and> clock_reads st1 = clock_reads st"
    using sd_search_frame [of L w n "''PA''" st] Pair by simp
  show ?thesis
  proof (cases "\<exists>u. r = Inr (Some u) \<and> u \<noteq> []")
    case True
    then obtain u where u: "r = Inr (Some u)" "u \<noteq> []" by blast
    show ?thesis
      using Pair u f1 sd_data_frame [of L w u st1]
      by (cases "SchoolDiggerScraper_scrape_district_data L w u st1")
         (auto simp: scrape_schooldigger_def split: sum.splits)
  next
    case False
    then show ?thesis
      using Pair f1 by (auto simp: scrape_schooldigger_def split: sum.splits option.splits)
  qed
qed

lemma scrape_greatschools_fields:
  assumes "scrape_greatschools L w n d st = (Inr d', st')"
  shows "district_name d' = district_name d \<and> county d' = county d
         \<and> last_updated d' = last_updated d"
  using assms
  by (auto simp: scrape_greatschools_def split: prod.splits sum.splits option.splits if_splits)

lemma scrape_niche_fields:
  assumes "scrape_niche L w n d st = (Inr d', st')"
  shows "district_name d' = district_name d \<and> county d' = county d
         \<and> last_updated d' = last_updated d"
  using assms
  by (auto simp: scrape_niche_def split: prod.splits sum.splits option.splits if_splits)

lemma scrape_schooldigger_fields:
  assumes "scrape_schooldigger L w n d st = (Inr d', st')"
  shows "district_name d' = district_name d \<and> county d' = county d
         \<and> last_updated d' = last_updated d"
  using assms
  by (auto simp: scrape_schooldigger_def split: prod.splits sum.splits option.splits if_splits)

lemma scrape_district_frame:
  "files (snd (scrape_district L w n st)) = files st \<and>
   clock_reads (snd (scrape_district L w n st)) = Suc (clock_reads st)"
proof -
  let ?d = "new_district_data n (now w (clock_reads st))"
  let ?s0 = "st\<lparr>clock_reads := clock_reads st + 1\<rparr>"
  obtain a s1 where 1: "scrape_greatschools L w n ?d ?s0 = (a, s1)"
    by (cases "scrape_greatschools L w n ?d ?s0")
  have f1: "files s1 = files st \<and> clock_reads s1 = Suc (clock_reads st)"
    using scrape_greatschools_frame [of L w n ?d ?s0] 1 by simp
  show ?thesis
  proof (cases a)
    case (Inl e)
    then show ?thesis unfolding scrape_district_def Let_def 1 using f1 by simp
  next
    case (Inr d1)
    obtain b s2 where 2: "scrape_niche L w n d1 s1 = (b, s2)"
      by (cases "scrape_niche L w n d1 s1")
    have f2: "files s2 = files st \<and> clock_reads s2 = Suc (clock_reads st)"
      using scrape_niche_frame [of L w n d1 s1] 2 f1 by simp
    show ?thesis
    proof (cases b)
      case (Inl e)
      then show ?thesis unfolding scrape_district_def Let_def 1 using Inr 2 f2 by simp
    next
      case d2: (Inr d2)
      show ?thesis
        unfolding scrape_district_def Let_def 1
        using Inr 2 d2 f2 scrape_schooldigger_frame [of L w n d2 s2] by simp
    qed
  qed
qed

lemma scrape_district_fields:
  assumes "scrape_district L w n st = (Inr d, st')"
  shows "district_name d = n \<and> county d = []
         \<and> last_updated d = Some (now w (clock_reads st))"
proof -
  let ?d = "new_district_data n (now w (clock_reads st))"
  let ?s0 = "st\<lparr>clock_reads := clock_reads st + 1\<rparr>"
  obtain a s1 where 1: "scrape_greatschools L w n ?d ?s0 = (a, s1)"
    by (cases "scrape_greatschools L w n ?d ?s0")
  have run: "(case a of Inl e \<Rightarrow> (Inl e, s1)
              | Inr d1 \<Rightarrow> (case scrape_niche L w n d1 s1 of
                             (Inl e, s2) \<Rightarrow> (Inl e, s2)
                           | (Inr d2, s2) \<Rightarrow> scrape_schooldigger L w n d2 s2)) = (Inr d, st')"
    using assms unfolding scrape_district_def Let_def 1 by simp
  then obtain d1 where a: "a = Inr d1" by (cases a) auto
  obtain b s2 where 2: "scrape_niche L w n d1 s1 = (b, s2)"
    by (cases "scrape_niche L w n d1 s1")
  obtain d2 where b: "b = Inr d2" using run a 2 by (cases b) auto
  have 3: "scrape_schooldigger L w n d2 s2 = (Inr d, st')"
    using run a 2 b by simp
  have "district_name d1 = n \<and> county d1 = [] \<and> last_updated d1 = Some (now w (clock_reads st))"
    using scrape_greatschools_fields [of L w n ?d ?s0 d1 s1] 1 a
    by (simp add: new_district_data_def)
  then have "district_name d2 = n \<and> county d2 = [] \<and> last_updated d2 = Some (now w (clock_reads st))"
    using scrape_niche_fields [of L w n d1 s1 d2 s2] 2 b by simp
  then show ?thesis
    using scrape_schooldigger_fields [OF 3] by simp
qed


lemma checkpoint_here:
  fixes i m :: nat
  assumes "Suc i mod 10 = 0"
  shows "i div 10 < (Suc i + m) div 10"
proof -
  have "Suc i div 10 = Suc (i div 10)" using assms by (simp add: div_Suc)
  moreover have "Suc i div 10 \<le> (Suc i + m) div 10" by (rule div_le_mono) simp
  ultimately show ?thesis by simp
qed

lemma checkpoint_last:
  fixes i m :: nat
  assumes "Suc i mod 10 = 0" and "\<not> Suc i div 10 < (Suc i + m) div 10"
  shows "10 * ((Suc i + m) div 10) - i = 1"
proof -
  have "Suc i div 10 \<le> (Suc i + m) div 10" by (rule div_le_mono) simp
  then have e: "(Suc i + m) div 10 = Suc i div 10" using assms(2) by simp
  have "10 * (Suc i div 10) = Suc i"
    using assms(1) mult_div_mod_eq [of 10 "Suc i"] by simp
  then have "10 * ((Suc i + m) div 10) = Suc i" by (simp only: e)
  then have "10 * ((Suc i + m) div 10) - i = Suc i - i" by (simp only:)
  then show ?thesis by simp
qed

lemma checkpoint_later:
  fixes i m :: nat
  assumes "Suc i div 10 < (Suc i + m) div 10"
  shows "10 * ((Suc i + m) div 10) - i = Suc (10 * ((Suc i + m) div 10) - Suc i)"
proof -
  have "Suc i div 10 * 10 \<le> Suc i" by (rule div_times_less_eq_dividend)
  have "Suc (Suc i div 10) \<le> (Suc i + m) div 10" using assms by simp
  then have "10 * Suc (Suc i div 10) \<le> 10 * ((Suc i + m) div 10)" by simp
  moreover have "Suc i < 10 * Suc (Suc i div 10)"
    using mult_div_mod_eq [of 10 "Suc i"] pos_mod_bound [of 10 "int (Suc i)"]
      mod_less_divisor [of 10 "Suc i"] by simp
  ultimately show ?thesis by simp
qed

lemma checkpoint_skip:
  fixes i m :: nat
  assumes "Suc i mod 10 \<noteq> 0"
  shows "(i div 10 < (Suc i + m) div 10) = (Suc i div 10 < (Suc i + m) div 10)"
  using assms by (simp add: div_Suc)

section \<open>The loop of the aggregator\<close>

lemma save_results_Inr:
  assumes "save_results w results filename st = (Inr x, st')"
  shows "st' = st\<lparr>files := (files st)(filename \<mapsto> results)\<rparr>"
  using assms by (auto simp: save_results_def split: option.splits)

lemma scrape_loop_append:
  "scrape_loop L w out (xs @ ys) i results st =
     (case scrape_loop L w out xs i results st of
        (Inl e, s) \<Rightarrow> (Inl e, s)
      | (Inr r, s) \<Rightarrow> scrape_loop L w out ys (i + length xs) r s)"
proof (induction xs arbitrary: i results st)
  case Nil
  then show ?case by simp
next
  case (Cons n xs)
  have e: "i + length (n # xs) = Suc i + length xs" by simp
  show ?case
    unfolding e by (simp add: Let_def Cons.IH split: prod.splits sum.splits)
qed

lemma scrape_loop_Inr:
  assumes "scrape_loop L w out names i results st = (Inr R, st')"
  shows "\<exists>new. R = results @ new \<and>
      map district_name new = names \<and> (\<forall>r\<in>set new. county r = []) \<and>
      clock_reads st' = clock_reads st + length names \<and>
      files st' =
        (if i div 10 < (i + length names) div 10
         then (files st)(''temp_'' @ out \<mapsto>
                results @ take (10 * ((i + length names) div 10) - i) new)
         else files st)"
  using assms
proof (induction names arbitrary: i results st)
  case Nil
  then show ?case by simp
next
  case (Cons n rest)
  obtain a st1 where p: "scrape_district L w n st = (a, st1)"
    by (cases "scrape_district L w n st")
  obtain d where a: "a = Inr d"
    using Cons.prems p by (cases a) auto
  have pd: "district_name d = n" "county d = []"
    using scrape_district_fields [of L w n st d st1] p a by simp_all
  have fr: "files st1 = files st" "clock_reads st1 = Suc (clock_reads st)"
    using scrape_district_frame [of L w n st] p by simp_all
  show ?case
  proof (cases "Suc i mod 10 = 0")
    case True
    obtain x st2 where s: "save_results w (results @ [d]) (''temp_'' @ out) st1 = (x, st2)"
      by (cases "save_results w (results @ [d]) (''temp_'' @ out) st1")
    obtain u where x: "x = Inr u"
      using Cons.prems p a True s by (cases x) (auto simp: Let_def)
    have st2: "st2 = st1\<lparr>files := (files st1)(''temp_'' @ out \<mapsto> results @ [d])\<rparr>"
      using save_results_Inr s x by blast
    have rest: "scrape_loop L w out rest (i + 1) (results @ [d]) st2 = (Inr R, st')"
      using Cons.prems p a True s x by (simp add: Let_def)
    obtain new where R: "R = (results @ [d]) @ new"
      and pn: "map district_name new = rest" "\<forall>r\<in>set new. county r = []"
        "clock_reads st' = clock_reads st2 + length rest"
      and fl: "files st' =
        (if (i + 1) div 10 < (i + 1 + length rest) div 10
         then (files st2)(''temp_'' @ out \<mapsto>
                (results @ [d]) @ take (10 * ((i + 1 + length rest) div 10) - (i + 1)) new)
         else files st2)"
      using Cons.IH [OF rest] by blast
    have f2: "files st2 = (files st)(''temp_'' @ out \<mapsto> results @ [d])"
      by (simp add: st2 fr(1))
    have clk: "clock_reads st' = clock_reads st + length (n # rest)"
      using pn(3) fr(2) by (simp add: st2)
    have files: "files st' =
        (if i div 10 < (i + length (n # rest)) div 10
         then (files st)(''temp_'' @ out \<mapsto>
                results @ take (10 * ((i + length (n # rest)) div 10) - i) (d # new))
         else files st)"
    proof (cases "Suc i div 10 < (Suc i + length rest) div 10")
      case inner: True
      show ?thesis
        using fl f2 inner checkpoint_here [OF True, of "length rest"]
          checkpoint_later [OF inner]
        by simp
    next
      case inner: False
      show ?thesis
        using fl f2 inner checkpoint_here [OF True, of "length rest"]
          checkpoint_last [OF True inner]
        by simp
    qed
    show ?thesis
      using R pd pn(1,2) clk files by (intro exI [of _ "d # new"]) simp
  next
    case False
    have rest: "scrape_loop L w out rest (i + 1) (results @ [d]) st1 = (Inr R, st')"
      using Cons.prems p a False by (simp add: Let_def)
    obtain new where R: "R = (results @ [d]) @ new"
      and pn: "map district_name new = rest" "\<forall>r\<in>set new. county r = []"
        "clock_reads st' = clock_reads st1 + length rest"
      and fl: "files st' =
        (if (i + 1) div 10 < (i + 1 + length rest) div 10
         then (files st1)(''temp_'' @ out \<mapsto>
                (results @ [d]) @ take (10 * ((i + 1 + length rest) div 10) - (i + 1)) new)
         else files st1)"
      using Cons.IH [OF rest] by blast
    have clk: "clock_reads st' = clock_reads st + length (n # rest)"
      using pn(3) fr(2) by simp
    have files: "files st' =
        (if i div 10 < (i + length (n # rest)) div 10
         then (files st)(''temp_'' @ out \<mapsto>
                results @ take (10 * ((i + length (n # rest)) div 10) - i) (d # new))
         else files st)"
    proof (cases "Suc i div 10 < (Suc i + length rest) div 10")
      case inner: True
      show ?thesis
        using fl fr(1) inner checkpoint_skip [OF False, of "length rest"]
          checkpoint_later [OF inner]
        by simp
    next
      case inner: False
      show ?thesis
        using fl fr(1) inner checkpoint_skip [OF False, of "length rest"]
        by simp
    qed
    show ?thesis
      using R pd pn(1,2) clk files by (intro exI [of _ "d # new"]) simp
  qed
qed

lemma scrape_loop_split:
  assumes "k \<le> length names"
    and "scrape_loop L w out names 0 [] st = (Inr results, st')"
  shows "\<exists>st_k.
      scrape_loop L w out (take k names) 0 [] st = (Inr (take k results), st_k)
    \<and> scrape_loop L w out (drop k names) k (take k results) st_k = (Inr results, st')
    \<and> map district_name results = names
    \<and> (\<forall>r\<in>set results. county r = [])
    \<and> clock_reads st_k = clock_reads st + k
    \<and> files st_k = (if 0 < k div 10
                    then (files st)(''temp_'' @ out \<mapsto> take (10 * (k div 10)) results)
                    else files st)"
proof -
  have lk: "length (take k names) = k" using assms(1) by simp
  obtain a st_k where 1: "scrape_loop L w out (take k names) 0 [] st = (a, st_k)"
    by (cases "scrape_loop L w out (take k names) 0 [] st")
  have whole: "scrape_loop L w out names 0 [] st =
     (case scrape_loop L w out (take k names) 0 [] st of
        (Inl e, s) \<Rightarrow> (Inl e, s)
      | (Inr r, s) \<Rightarrow> scrape_loop L w out (drop k names) (0 + length (take k names)) r s)"
    using scrape_loop_append [of L w out "take k names" "drop k names" 0 "[]" st] by simp
  obtain rk where a: "a = Inr rk"
    using whole assms(2) 1 by (cases a) auto
  have 2: "scrape_loop L w out (drop k names) k rk st_k = (Inr results, st')"
    using whole assms(2) 1 a unfolding lk by simp
  obtain new1 where n1: "rk = [] @ new1" "map district_name new1 = take k names"
    "clock_reads st_k = clock_reads st + length (take k names)"
    "files st_k =
        (if 0 div 10 < (0 + length (take k names)) div 10
         then (files st)(''temp_'' @ out \<mapsto>
                [] @ take (10 * ((0 + length (take k names)) div 10) - 0) new1)
         else files st)"
    using scrape_loop_Inr [of L w out "take k names" 0 "[]" st rk st_k] 1 a by blast
  obtain new where n2: "results = rk @ new"
    using scrape_loop_Inr [OF 2] by blast
  obtain all where n3: "results = [] @ all" "map district_name all = names"
    "\<forall>r\<in>set all. county r = []"
    using scrape_loop_Inr [OF assms(2)] by blast
  have len: "length rk = k"
    using n1(1,2) assms(1) by (metis append_Nil length_map lk)
  have tk: "take k results = rk" using n2 len by simp
  have le: "10 * (k div 10) \<le> k" by simp
  have tt: "take (10 * (k div 10)) rk = take (10 * (k div 10)) results"
    using le len n2 by simp
  have f: "files st_k = (if 0 < k div 10
                    then (files st)(''temp_'' @ out \<mapsto> take (10 * (k div 10)) results)
                    else files st)"
    using n1(4) n1(1) unfolding lk tt [symmetric] by simp
  have c: "clock_reads st_k = clock_reads st + k"
    using n1(3) unfolding lk .
  have r1: "scrape_loop L w out (take k names) 0 [] st = (Inr (take k results), st_k)"
    unfolding tk using 1 a by simp
  have r2: "scrape_loop L w out (drop k names) k (take k results) st_k = (Inr results, st')"
    unfolding tk by (rule 2)
  have names: "map district_name results = names" using n3 by simp
  have cty: "\<forall>r\<in>set results. county r = []" using n3 by simp
  show ?thesis
    by (intro exI [of _ st_k] conjI r1 r2 names cty c f)
qed

lemma scrape_loop_nth:
  assumes "i < length names"
    and "scrape_loop L w out names 0 [] st = (Inr results, st')"
  shows "\<exists>st_i st_i'.
      scrape_loop L w out (take i names) 0 [] st = (Inr (take i results), st_i)
    \<and> scrape_district L w (names ! i) st_i = (Inr (results ! i), st_i')
    \<and> clock_reads st_i = clock_reads st + i"
proof -
  have le: "i \<le> length names" using assms(1) by simp
  obtain st_i where
    1: "scrape_loop L w out (take i names) 0 [] st = (Inr (take i results), st_i)"
    and 2: "scrape_loop L w out (drop i names) i (take i results) st_i = (Inr results, st')"
    and names: "map district_name results = names"
    and clk: "clock_reads st_i = clock_reads st + i"
    using scrape_loop_split [OF le assms(2)] by blast
  have len: "length results = length names"
    using names by (metis length_map)
  have dr: "drop i names = names ! i # drop (Suc i) names"
    using assms(1) by (simp add: Cons_nth_drop_Suc)
  obtain a st1 where p: "scrape_district L w (names ! i) st_i = (a, st1)"
    by (cases "scrape_district L w (names ! i) st_i")
  obtain d where a: "a = Inr d"
    using 2 p unfolding dr by (cases a) auto
  have "\<exists>st2. scrape_loop L w out (drop (Suc i) names) (i + 1) (take i results @ [d]) st2
                 = (Inr results, st')"
    using 2 p a unfolding dr
    by (auto simp: Let_def split: if_splits prod.splits sum.splits)
  then obtain st2 new where "results = (take i results @ [d]) @ new"
    using scrape_loop_Inr by blast
  then have "results ! i = ((take i results @ [d]) @ new) ! i" by simp
  also have "\<dots> = d"
    using assms(1) len by (simp add: nth_append)
  finally have nth: "results ! i = d" .
  have b: "scrape_district L w (names ! i) st_i = (Inr (results ! i), st1)"
    unfolding nth using p a by simp
  show ?thesis
    by (intro exI [of _ st_i] exI [of _ st1] conjI 1 b clk)
qed

lemma scrape_all_Inr:
  assumes "scrape_all_districts L w names out st = (Inr results, st')"
  shows "\<exists>st1. scrape_loop L w out names 0 [] st = (Inr results, st1)
           \<and> st' = st1\<lparr>files := (files st1)(out \<mapsto> results)\<rparr>"
proof -
  obtain a st1 where 1: "scrape_loop L w out names 0 [] st = (a, st1)"
    by (cases "scrape_loop L w out names 0 [] st")
  obtain r where a: "a = Inr r"
    using assms 1 by (cases a) (auto simp: scrape_all_districts_def)
  obtain x st2 where s: "save_results w r out st1 = (x, st2)"
    by (cases "save_results w r out st1")
  obtain u where x: "x = Inr u"
    using assms 1 a s by (cases x) (auto simp: scrape_all_districts_def)
  have "r = results" "st2 = st'"
    using assms 1 a s x by (simp_all add: scrape_all_districts_def)
  then show ?thesis
    using 1 a save_results_Inr [of w r out st1 u st2] s x by simp
qed

section \<open>A pass whose fetches all fail\<close>

lemma get_page_source_None:
  assumes "fst (get_page_source w delay url st) = None"
  shows "get_page_source w delay url st = (None, st\<lparr>log := log st @ [Sleep delay, Get url]\<rparr>)"
  using assms by (simp add: get_page_source_eq)

lemma gs_search_None:
  assumes "fst (get_page_source w 1000 (gs_search_url L n s) st) = None"
  shows "GreatSchoolsScraper_search_district L w n s st
           = (Inr None, st\<lparr>log := log st @ [Sleep 1000, Get (gs_search_url L n s)]\<rparr>)"
  using get_page_source_None [OF assms]
  by (simp add: GreatSchoolsScraper_search_district_def Let_def gs_search_url_def)

lemma sd_search_None:
  assumes "fst (get_page_source w 1000 (sd_search_url L n) st) = None"
  shows "SchoolDiggerScraper_search_district L w n s st
           = (Inr None, st\<lparr>log := log st @ [Sleep 1000, Get (sd_search_url L n)]\<rparr>)"
  using get_page_source_None [OF assms]
  by (simp add: SchoolDiggerScraper_search_district_def Let_def sd_search_url_def)

lemma niche_try_search_None:
  assumes "fst (get_page_source w 1500 (niche_search_url L n s) st) = None"
  shows "niche_try_search L w n s st
           = (Inr None, st\<lparr>log := log st @ [Sleep 1500, Get (niche_search_url L n s)]\<rparr>)"
  using get_page_source_None [OF assms]
  by (simp add: niche_try_search_def Let_def niche_search_url_def)

lemma niche_search_None:
  assumes "fst (get_page_source w 1500 (potential_url n s) st) = None"
    and "fst (get_page_source w 1500 (niche_search_url L n s)
                (st\<lparr>log := log st @ [Sleep 1500, Get (potential_url n s)]\<rparr>)) = None"
  shows "NicheScraper_search_district L w n s st
           = (Inr None, st\<lparr>log := log st @ [Sleep 1500, Get (potential_url n s),
                                           Sleep 1500, Get (niche_search_url L n s)]\<rparr>)"
  using get_page_source_None [OF assms(1)] niche_try_search_None [OF assms(2)]
  by (simp add: NicheScraper_search_district_def)

lemma scrape_district_unreached:
  assumes "\<forall>j<4. \<forall>s. length (log s) = length (log st) + 2 * j \<longrightarrow>
             fst (get_page_source w (fst (pass_fetches L n ! j)) (snd (pass_fetches L n ! j)) s)
               = None"
  shows "\<exists>st'. scrape_district L w n st
                 = (Inr (new_district_data n (now w (clock_reads st))), st')"
proof -
  let ?d = "new_district_data n (now w (clock_reads st))"
  let ?s0 = "st\<lparr>clock_reads := Suc (clock_reads st)\<rparr>"
  have e: "st\<lparr>clock_reads := clock_reads st + 1\<rparr> = ?s0" by simp
  have h0: "\<And>s. length (log s) = length (log st) \<Longrightarrow>
              fst (get_page_source w 1000 (gs_search_url L n ''PA'') s) = None"
    using assms [rule_format, of 0] by (simp add: pass_fetches_def)
  have h1: "\<And>s. length (log s) = length (log st) + 2 \<Longrightarrow>
              fst (get_page_source w 1500 (potential_url n ''pennsylvania'') s) = None"
    using assms [rule_format, of 1] by (simp add: pass_fetches_def)
  have h2: "\<And>s. length (log s) = length (log st) + 4 \<Longrightarrow>
              fst (get_page_source w 1500 (niche_search_url L n ''pennsylvania'') s) = None"
    using assms [rule_format, of 2] by (simp add: pass_fetches_def)
  have h3: "\<And>s. length (log s) = length (log st) + 6 \<Longrightarrow>
              fst (get_page_source w 1000 (sd_search_url L n) s) = None"
    using assms [rule_format, of 3] by (simp add: pass_fetches_def)
  have "fst (get_page_source w 1000 (gs_search_url L n ''PA'') ?s0) = None"
    by (rule h0) simp
  then obtain s1 where 1: "GreatSchoolsScraper_search_district L w n ''PA'' ?s0 = (Inr None, s1)"
    and l1: "length (log s1) = length (log st) + 2"
    using gs_search_None [of w L n "''PA''" ?s0] by simp
  have a: "scrape_greatschools L w n ?d ?s0 = (Inr ?d, s1)"
    by (simp add: scrape_greatschools_def 1)
  have "fst (get_page_source w 1500 (potential_url n ''pennsylvania'') s1) = None"
    by (rule h1) (simp add: l1)
  moreover have "fst (get_page_source w 1500 (niche_search_url L n ''pennsylvania'')
                (s1\<lparr>log := log s1 @ [Sleep 1500, Get (potential_url n ''pennsylvania'')]\<rparr>)) = None"
    by (rule h2) (simp add: l1)
  ultimately obtain s2 where
    2: "NicheScraper_search_district L w n ''pennsylvania'' s1 = (Inr None, s2)"
    and l2: "length (log s2) = length (log st) + 6"
    using niche_search_None [of w n "''pennsylvania''" s1 L] l1 by simp
  have b: "scrape_niche L w n ?d s1 = (Inr ?d, s2)"
    by (simp add: scrape_niche_def 2)
  have "fst (get_page_source w 1000 (sd_search_url L n) s2) = None"
    by (rule h3) (simp add: l2)
  then obtain s3 where 3: "SchoolDiggerScraper_search_district L w n ''PA'' s2 = (Inr None, s3)"
    using sd_search_None [of w L n s2 "''PA''"] by simp
  have c: "scrape_schooldigger L w n ?d s2 = (Inr ?d, s3)"
    by (simp add: scrape_schooldigger_def 3)
  have "scrape_district L w n st = (Inr ?d, s3)"
    unfolding scrape_district_def Let_def e a by (simp add: b c)
  then show ?thesis by blast
qed

lemma all_down_loop_returns:
  assumes "\<And>delay url s. fst (get_page_source w delay url s) = None"
    and "\<And>n f. to_csv w n f = None"
  shows "\<exists>R st'. scrape_loop L w out names i results st = (Inr R, st')"
proof (induction names arbitrary: i results st)
  case Nil
  then show ?case by simp
next
  case (Cons n rest)
  obtain st1 where p: "scrape_district L w n st
                 = (Inr (new_district_data n (now w (clock_reads st))), st1)"
    using scrape_district_unreached [of st w L n] assms(1) by blast
  show ?case
    using Cons.IH by (simp add: p Let_def save_results_def assms(2))
qed

lemma all_down_run_returns:
  assumes "\<And>delay url s. fst (get_page_source w delay url s) = None"
    and "\<And>n f. to_csv w n f = None"
  shows "\<exists>results st'. scrape_all_districts L w names out st = (Inr results, st')"
proof -
  obtain R st1 where "scrape_loop L w out names 0 [] st = (Inr R, st1)"
    using all_down_loop_returns [OF assms] by blast
  then show ?thesis
    by (simp add: scrape_all_districts_def save_results_def assms(2))
qed

lemma world_down_fetch: "fst (get_page_source world_down delay url s) = None"
  by (simp add: get_page_source_eq world_down_def)

lemma world_down_writes: "to_csv world_down n f = None"
  by (simp add: world_down_def)

text \<open>
  C3. Take the \<open>i\<close>-th district of a run whose first \<open>i\<close> passes returned, leaving the
  state \<open>st_i\<close>. If the four fetches that its pass then makes return absent (the
  GreatSchools search, the guessed Niche URL, the Niche search and the SchoolDigger
  search, at the second, fourth, sixth and eighth log entry after \<open>st_i\<close>), whatever
  other pages would do, then the pass returns a record in which only the district name
  and the timestamp are set: the county is the empty string, and both rating URLs, the
  three ratings, the enrollment and the student/teacher ratio are absent. It is the
  \<open>i\<close>-th record of the list that the run returns, if the run returns.
\<close>

theorem unreachable_district_gives_empty_record:
  assumes "i < length district_names"
    and "after_passes L w output_file district_names i st = (Inr ri, st_i)"
    and "\<forall>j<4. \<forall>s. length (log s) = length (log st_i) + 2 * j \<longrightarrow>
           fst (get_page_source w (fst (pass_fetches L (district_names ! i) ! j))
                  (snd (pass_fetches L (district_names ! i) ! j)) s) = None"
  shows "(\<exists>st_i'. scrape_district L w (district_names ! i) st_i =
          (Inr \<lparr>district_name = district_names ! i, county = [],
                greatschools_rating = None, greatschools_url = None,
                niche_rating = None, niche_url = None,
                schooldigger_rating = None, schooldigger_url = None,
                enrollment = None, student_teacher_ratio = None,
                last_updated = Some (now w (clock_reads st + i))\<rparr>, st_i'))
     \<and> (\<forall>results st'.
          scrape_all_districts L w district_names output_file st = (Inr results, st')
          \<longrightarrow> results ! i =
              \<lparr>district_name = district_names ! i, county = [],
               greatschools_rating = None, greatschools_url = None,
               niche_rating = None, niche_url = None,
               schooldigger_rating = None, schooldigger_url = None,
               enrollment = None, student_teacher_ratio = None,
               last_updated = Some (now w (clock_reads st + i))\<rparr>)"
proof -
  let ?n = "district_names ! i"
  let ?rec = "new_district_data ?n (now w (clock_reads st + i))"
  have prefix: "scrape_loop L w output_file (take i district_names) 0 [] st = (Inr ri, st_i)"
    using assms(2) by (simp add: after_passes_def)
  have clk: "clock_reads st_i = clock_reads st + i"
    using scrape_loop_Inr [OF prefix] assms(1) by auto
  obtain st_i' where pass: "scrape_district L w ?n st_i = (Inr ?rec, st_i')"
    using scrape_district_unreached [OF assms(3)] clk by auto
  have run: "\<forall>results st'.
          scrape_all_districts L w district_names output_file st = (Inr results, st')
          \<longrightarrow> results ! i = ?rec"
  proof (intro allI impI)
    fix results st'
    assume "scrape_all_districts L w district_names output_file st = (Inr results, st')"
    then obtain st1 where
      l: "scrape_loop L w output_file district_names 0 [] st = (Inr results, st1)"
      using scrape_all_Inr by blast
    obtain s s' where
      a: "scrape_loop L w output_file (take i district_names) 0 [] st = (Inr (take i results), s)"
      and b: "scrape_district L w ?n s = (Inr (results ! i), s')"
      using scrape_loop_nth [OF assms(1) l] by blast
    have "s = st_i" using a prefix by simp
    then show "results ! i = ?rec" using b pass by simp
  qed
  show ?thesis
    using pass run unfolding new_district_data_def by blast
qed

text \<open>
  C3 at a run of one district in a world where only the pages of that district cannot
  be reached.
\<close>

theorem unreachable_district_example:
  "(0::nat) < length [''Pittsburgh School District'']
   \<and> after_passes lib_plain world_pittsburgh_down ''out.csv'' [''Pittsburgh School District''] 0
         state0 = (Inr [], state0)
   \<and> (\<forall>s. fst (get_page_source world_pittsburgh_down 1000
                  (gs_search_url lib_plain ''Pittsburgh School District'' ''PA'') s) = None)
   \<and> (\<forall>s. fst (get_page_source world_pittsburgh_down 1500
                  (potential_url ''Pittsburgh School District'' ''pennsylvania'') s) = None)
   \<and> (\<forall>s. fst (get_page_source world_pittsburgh_down 1500
                  (niche_search_url lib_plain ''Pittsburgh School District'' ''pennsylvania'') s)
             = None)
   \<and> (\<forall>s. fst (get_page_source world_pittsburgh_down 1000
                  (sd_search_url lib_plain ''Pittsburgh School District'') s) = None)
   \<and> fst (get_page_source world_pittsburgh_down 1000 ''https://www.greatschools.org/'' state0)
       = Some ''<html>Erie</html>''
   \<and> (\<exists>st'.
        scrape_all_districts lib_plain world_pittsburgh_down [''Pittsburgh School District'']
          ''out.csv'' state0
          = (Inr [\<lparr>district_name = ''Pittsburgh School District'', county = [],
                   greatschools_rating = None, greatschools_url = None,
                   niche_rating = None, niche_url = None,
                   schooldigger_rating = None, schooldigger_url = None,
                   enrollment = None, student_teacher_ratio = None,
                   last_updated = Some ''2024-01-01T00:00:00''\<rparr>], st'))"
proof -
  let ?n = "''Pittsburgh School District''"
  let ?w = world_pittsburgh_down
  let ?rec = "\<lparr>district_name = ?n, county = [],
                   greatschools_rating = None, greatschools_url = None,
                   niche_rating = None, niche_url = None,
                   schooldigger_rating = None, schooldigger_url = None,
                   enrollment = None, student_teacher_ratio = None,
                   last_updated = Some ''2024-01-01T00:00:00''\<rparr>"
  have u0: "contains ''ittsburgh'' (gs_search_url lib_plain ?n ''PA'')" by code_simp
  have u1: "contains ''ittsburgh'' (potential_url ?n ''pennsylvania'')" by code_simp
  have u2: "contains ''ittsburgh'' (niche_search_url lib_plain ?n ''pennsylvania'')" by code_simp
  have u3: "contains ''ittsburgh'' (sd_search_url lib_plain ?n)" by code_simp
  have down: "\<And>delay url s. contains ''ittsburgh'' url
                 \<Longrightarrow> fst (get_page_source ?w delay url s) = None"
    by (simp add: get_page_source_eq world_pittsburgh_down_def)
  have f0: "\<forall>s. fst (get_page_source ?w 1000 (gs_search_url lib_plain ?n ''PA'') s) = None"
    using down [OF u0] by blast
  have f1: "\<forall>s. fst (get_page_source ?w 1500 (potential_url ?n ''pennsylvania'') s) = None"
    using down [OF u1] by blast
  have f2: "\<forall>s. fst (get_page_source ?w 1500 (niche_search_url lib_plain ?n ''pennsylvania'') s)
                  = None"
    using down [OF u2] by blast
  have f3: "\<forall>s. fst (get_page_source ?w 1000 (sd_search_url lib_plain ?n) s) = None"
    using down [OF u3] by blast
  have up: "fst (get_page_source ?w 1000 ''https://www.greatschools.org/'' state0)
              = Some ''<html>Erie</html>''"
    by (simp add: get_page_source_eq world_pittsburgh_down_def)
  have h1: "(0::nat) < length [?n]" by simp
  have h2: "after_passes lib_plain ?w ''out.csv'' [?n] 0 state0 = (Inr [], state0)"
    by (simp add: after_passes_def)
  have h3: "\<forall>j<4. \<forall>s. length (log s) = length (log state0) + 2 * j \<longrightarrow>
           fst (get_page_source ?w (fst (pass_fetches lib_plain ([?n] ! 0) ! j))
                  (snd (pass_fetches lib_plain ([?n] ! 0) ! j)) s) = None"
  proof (intro allI impI)
    fix j :: nat and s
    assume "j < 4"
    then have "j = 0 \<or> j = 1 \<or> j = 2 \<or> j = 3" by arith
    then show "fst (get_page_source ?w (fst (pass_fetches lib_plain ([?n] ! 0) ! j))
                  (snd (pass_fetches lib_plain ([?n] ! 0) ! j)) s) = None"
      using f0 f1 f2 f3 by (auto simp: pass_fetches_def)
  qed
  obtain st_i' where pass: "scrape_district lib_plain ?w ([?n] ! 0) state0 =
          (Inr \<lparr>district_name = [?n] ! 0, county = [],
                greatschools_rating = None, greatschools_url = None,
                niche_rating = None, niche_url = None,
                schooldigger_rating = None, schooldigger_url = None,
                enrollment = None, student_teacher_ratio = None,
                last_updated = Some (now ?w (clock_reads state0 + 0))\<rparr>, st_i')"
    using unreachable_district_gives_empty_record [OF h1 h2 h3] by blast
  have ts: "now ?w (clock_reads state0 + 0) = ''2024-01-01T00:00:00''"
    by (simp add: world_pittsburgh_down_def)
  have pass': "scrape_district lib_plain ?w ?n state0 = (Inr ?rec, st_i')"
    using pass unfolding ts by simp
  have run: "\<exists>st'. scrape_all_districts lib_plain ?w [?n] ''out.csv'' state0 = (Inr [?rec], st')"
  proof -
    have wr: "\<And>k f. to_csv ?w k f = None" by (simp add: world_pittsburgh_down_def)
    show ?thesis by (simp add: scrape_all_districts_def pass' save_results_def wr)
  qed
  show ?thesis by (intro conjI h1 h2 f0 f1 f2 f3 up run)
qed

section \<open>Claims about the aggregator\<close>

text \<open>
  C2, as the code has it. Take a run of the aggregator that returns: no pass and no
  write has raised. Then it has written the result list to the output path at the end.
  When the loop had made \<open>k\<close> passes, the file named by \<open>temp_\<close> before the output
  filename was as the run found it if \<open>k < 10\<close>, and otherwise held exactly the records
  of the first \<open>10 * (k div 10)\<close> districts, the list as it was at the last tenth record
  (written anew each time, nothing appended); no other file was touched by the loop.
  The final file holds one record for each name, in the order of the names, so no
  record twice when the names differ. In particular, after 10 of 23 districts the
  checkpoint holds exactly 10 records, and the final file holds exactly 23.
\<close>

theorem checkpoint_every_tenth_record:
  assumes "scrape_all_districts L w district_names output_file st = (Inr results, st_end)"
    and "k \<le> length district_names"
  shows "\<exists>st_k st_loop.
      after_passes L w output_file district_names k st = (Inr (take k results), st_k)
    \<and> scrape_loop L w output_file (drop k district_names) k (take k results) st_k
        = (Inr results, st_loop)
    \<and> st_end = st_loop\<lparr>files := (files st_loop)(output_file \<mapsto> results)\<rparr>
    \<and> length results = length district_names
    \<and> map district_name results = district_names
    \<and> files st_end output_file = Some results
    \<and> files st_k (''temp_'' @ output_file)
        = (if k < 10 then files st (''temp_'' @ output_file)
           else Some (take (10 * (k div 10)) results))
    \<and> (\<forall>f. f \<noteq> ''temp_'' @ output_file \<longrightarrow> files st_k f = files st f)
    \<and> (distinct district_names \<longrightarrow> distinct results)
    \<and> (length district_names = 23 \<and> k = 10 \<longrightarrow>
         length results = 23 \<and>
         (\<exists>checkpoint. files st_k (''temp_'' @ output_file) = Some checkpoint
            \<and> length checkpoint = 10))"
proof -
  obtain st_loop where
    l: "scrape_loop L w output_file district_names 0 [] st = (Inr results, st_loop)"
    and e: "st_end = st_loop\<lparr>files := (files st_loop)(output_file \<mapsto> results)\<rparr>"
    using scrape_all_Inr [OF assms(1)] by blast
  obtain st_k where
    1: "scrape_loop L w output_file (take k district_names) 0 [] st = (Inr (take k results), st_k)"
    and 2: "scrape_loop L w output_file (drop k district_names) k (take k results) st_k
              = (Inr results, st_loop)"
    and names: "map district_name results = district_names"
    and f: "files st_k = (if 0 < k div 10
                    then (files st)(''temp_'' @ output_file \<mapsto> take (10 * (k div 10)) results)
                    else files st)"
    using scrape_loop_split [OF assms(2) l] by blast
  have len: "length results = length district_names"
    using names by (metis length_map)
  have k10: "(0 < k div 10) = (\<not> k < 10)" by (simp add: div_greater_zero_iff not_less)
  have temp: "files st_k (''temp_'' @ output_file)
        = (if k < 10 then files st (''temp_'' @ output_file)
           else Some (take (10 * (k div 10)) results))"
    unfolding f k10 by simp
  have other: "\<forall>f. f \<noteq> ''temp_'' @ output_file \<longrightarrow> files st_k f = files st f"
    unfolding f by simp
  have dist: "distinct district_names \<longrightarrow> distinct results"
    using names by (metis distinct_map)
  have part: "length district_names = 23 \<and> k = 10 \<longrightarrow>
         length results = 23 \<and>
         (\<exists>checkpoint. files st_k (''temp_'' @ output_file) = Some checkpoint
            \<and> length checkpoint = 10)"
  proof (intro impI, elim conjE)
    assume n: "length district_names = 23" and k: "k = 10"
    have t10: "files st_k (''temp_'' @ output_file) = Some (take 10 results)"
      using temp k by simp
    have l23: "length results = 23"
      using len n by simp
    then have l10: "length (take 10 results) = 10"
      by simp
    show "length results = 23 \<and>
         (\<exists>checkpoint. files st_k (''temp_'' @ output_file) = Some checkpoint
            \<and> length checkpoint = 10)"
      by (intro conjI exI [of _ "take 10 results"] l23 t10 l10)
  qed
  have a: "after_passes L w output_file district_names k st = (Inr (take k results), st_k)"
    by (simp add: after_passes_def 1)
  have d: "files st_end output_file = Some results"
    by (simp add: e)
  show ?thesis
    by (intro exI [of _ st_k] exI [of _ st_loop] conjI a 2 e len names d temp other dist part)
qed

lemma down_loop_checkpoint_fails:
  assumes "\<And>delay url s. fst (get_page_source w delay url s) = None"
    and "\<And>k. to_csv w k (''temp_'' @ out) = Some e"
    and "i < 10" and "10 \<le> i + length names"
  shows "fst (scrape_loop L w out names i results st) = Inl e
       \<and> files (snd (scrape_loop L w out names i results st)) = files st"
  using assms(3,4)
proof (induction names arbitrary: i results st)
  case Nil
  then show ?case by simp
next
  case (Cons n rest)
  obtain st1 where p: "scrape_district L w n st
                 = (Inr (new_district_data n (now w (clock_reads st))), st1)"
    using scrape_district_unreached [of st w L n] assms(1) by blast
  have fr: "files st1 = files st"
    using scrape_district_frame [of L w n st] p by simp
  show ?case
  proof (cases "i = 9")
    case True
    then show ?thesis
      by (simp add: p Let_def save_results_def assms(2) [simplified] fr)
  next
    case False
    then have lt: "i + 1 < 10" using Cons.prems(1) by simp
    then have m: "(i + 1) mod 10 \<noteq> 0" by simp
    have ge: "10 \<le> (i + 1) + length rest" using Cons.prems(2) by simp
    have step: "scrape_loop L w out (n # rest) i results st
        = scrape_loop L w out rest (i + 1)
            (results @ [new_district_data n (now w (clock_reads st))]) st1"
      using m by (simp add: p Let_def)
    show ?thesis
      unfolding step using Cons.IH [OF lt ge] fr by simp
  qed
qed

text \<open>
  C2 as the spec states it fails: the run does not write the lists for every input.
  The checkpoint path is \<open>temp_\<close> followed by the whole output path, so for the output
  path \<open>sub/out.csv\<close> it lies in the directory \<open>temp_sub\<close>. Where that directory does
  not exist, \<open>to_csv\<close> raises at the tenth record, the run of twenty-three districts
  ends with that error, and neither the checkpoint nor the final file is written.
\<close>

theorem checkpoint_in_missing_directory_aborts_run:
  "fst (scrape_all_districts lib_plain world_no_checkpoint_dir names23 ''sub/out.csv'' state0)
     = Inl (OSError ''temp_sub/out.csv'')
   \<and> files (snd (scrape_all_districts lib_plain world_no_checkpoint_dir names23
                   ''sub/out.csv'' state0)) ''sub/out.csv'' = None
   \<and> files (snd (scrape_all_districts lib_plain world_no_checkpoint_dir names23
                   ''sub/out.csv'' state0)) ''temp_sub/out.csv'' = None
   \<and> to_csv world_no_checkpoint_dir 0 ''sub/out.csv'' = None"
proof -
  let ?w = world_no_checkpoint_dir
  let ?l = "scrape_loop lib_plain ?w ''sub/out.csv'' names23 0 [] state0"
  have down: "\<And>delay url s. fst (get_page_source ?w delay url s) = None"
    by (simp add: get_page_source_eq world_no_checkpoint_dir_def)
  have wr: "\<And>k. to_csv ?w k (''temp_'' @ ''sub/out.csv'') = Some (OSError ''temp_sub/out.csv'')"
    by (simp add: world_no_checkpoint_dir_def)
  have len: "10 \<le> 0 + length names23" by (simp add: names23_def)
  have l: "fst ?l = Inl (OSError ''temp_sub/out.csv'') \<and> files (snd ?l) = files state0"
    by (rule down_loop_checkpoint_fails [of ?w "''sub/out.csv''" _ 0 names23, OF down wr _ len])
      simp
  obtain st1 where l': "?l = (Inl (OSError ''temp_sub/out.csv''), st1)"
    and f: "files st1 = files state0"
    using l by (cases ?l) simp
  have run: "scrape_all_districts lib_plain ?w names23 ''sub/out.csv'' state0
               = (Inl (OSError ''temp_sub/out.csv''), st1)"
    by (simp add: scrape_all_districts_def l')
  have ok: "to_csv ?w 0 ''sub/out.csv'' = None"
    by (simp add: world_no_checkpoint_dir_def)
  show ?thesis
    unfolding run using f ok by (simp add: state0_def)
qed

text \<open>
  The run of C2 on twenty-three different names with every site down and every file
  writable: it returns, the checkpoint after ten passes holds 10 records, the final
  file 23 different ones.
\<close>

theorem checkpoint_after_10_of_23:
  "(10::nat) \<le> length names23 \<and> length names23 = 23 \<and> distinct names23 \<and>
   (\<exists>results st_k st_end.
      scrape_all_districts lib_plain world_down names23 ''out.csv'' state0 = (Inr results, st_end)
    \<and> after_passes lib_plain world_down ''out.csv'' names23 10 state0 = (Inr (take 10 results), st_k)
    \<and> (\<exists>checkpoint. files st_k ''temp_out.csv'' = Some checkpoint \<and> length checkpoint = 10)
    \<and> files st_end ''out.csv'' = Some results \<and> length results = 23 \<and> distinct results)"
proof -
  have h: "(10::nat) \<le> length names23" by (simp add: names23_def)
  have n: "length names23 = 23" by (simp add: names23_def)
  have d: "distinct names23" by (simp add: names23_def)
  obtain results st_end where
    run: "scrape_all_districts lib_plain world_down names23 ''out.csv'' state0
            = (Inr results, st_end)"
    using all_down_run_returns [of world_down lib_plain names23 "''out.csv''" state0]
      world_down_fetch world_down_writes by blast
  obtain st_k where
    a: "after_passes lib_plain world_down ''out.csv'' names23 10 state0 = (Inr (take 10 results), st_k)"
    and f: "files st_end ''out.csv'' = Some results"
    and dist: "distinct names23 \<longrightarrow> distinct results"
    and part: "length names23 = 23 \<and> (10::nat) = 10 \<longrightarrow>
         length results = 23 \<and>
         (\<exists>checkpoint. files st_k (''temp_'' @ ''out.csv'') = Some checkpoint
            \<and> length checkpoint = 10)"
    using checkpoint_every_tenth_record [OF run h] by blast
  have p: "length results = 23"
    "\<exists>checkpoint. files st_k ''temp_out.csv'' = Some checkpoint \<and> length checkpoint = 10"
    using part n by simp_all
  have dr: "distinct results" using dist d by simp
  show ?thesis
    by (intro conjI h n d exI [of _ results] exI [of _ st_k] exI [of _ st_end] run a f p dr)
qed



text \<open>
  C6, as the code has it. When the aggregator returns, the district names of the
  records are the input names, in order, and the county of every record is the empty
  string; so the records have a non-empty district name when the input names are
  non-empty (the aggregator does not check that they are). Every other field is
  optional.
\<close>

theorem record_names_are_input_names:
  assumes "scrape_all_districts L w district_names output_file st = (Inr results, st')"
  shows "map district_name results = district_names
     \<and> (\<forall>r\<in>set results. county r = [])
     \<and> ((\<forall>n\<in>set district_names. n \<noteq> []) \<longrightarrow> (\<forall>r\<in>set results. district_name r \<noteq> []))"
proof -
  obtain st1 where
    l: "scrape_loop L w output_file district_names 0 [] st = (Inr results, st1)"
    using scrape_all_Inr [OF assms] by blast
  have names: "map district_name results = district_names"
    and cty: "\<forall>r\<in>set results. county r = []"
    using scrape_loop_Inr [OF l] by auto
  have "set district_names = district_name ` set results"
    using names by (metis set_map)
  then have ne: "(\<forall>n\<in>set district_names. n \<noteq> []) \<longrightarrow> (\<forall>r\<in>set results. district_name r \<noteq> [])"
    by blast
  show ?thesis by (intro conjI names cty ne)
qed

text \<open>
  C6 as the spec states it fails: the aggregator takes any list of strings, and for
  the empty string as a name it returns a record whose district name is empty.
\<close>

theorem empty_name_gives_empty_district_name:
  "fst (scrape_all_districts lib_plain world_down [[]] ''out.csv'' state0)
     = Inr [\<lparr>district_name = [], county = [],
             greatschools_rating = None, greatschools_url = None,
             niche_rating = None, niche_url = None,
             schooldigger_rating = None, schooldigger_url = None,
             enrollment = None, student_teacher_ratio = None,
             last_updated = Some ''2024-01-01T00:00:00''\<rparr>]"
proof -
  obtain st1 where pass: "scrape_district lib_plain world_down [] state0
            = (Inr (new_district_data [] (now world_down (clock_reads state0))), st1)"
    using scrape_district_unreached [of state0 world_down lib_plain "[]"] world_down_fetch
    by blast
  have ts: "now world_down (clock_reads state0) = ''2024-01-01T00:00:00''"
    by (simp add: world_down_def)
  show ?thesis
    using pass unfolding ts
    by (simp add: scrape_all_districts_def new_district_data_def save_results_def
        world_down_writes)
qed

text \<open>C6, as the code has it, at a run of one district with a non-empty name.\<close>

theorem nonempty_names_example:
  "''Pittsburgh School District'' \<noteq> []
   \<and> (\<exists>results st'.
        scrape_all_districts lib_plain world_down [''Pittsburgh School District''] ''out.csv'' state0
          = (Inr results, st')
      \<and> map district_name results = [''Pittsburgh School District'']
      \<and> (\<forall>r\<in>set results. district_name r \<noteq> []))"
proof -
  let ?names = "[''Pittsburgh School District'']"
  obtain results st' where
    run: "scrape_all_districts lib_plain world_down ?names ''out.csv'' state0 = (Inr results, st')"
    using all_down_run_returns [of world_down lib_plain ?names "''out.csv''" state0]
      world_down_fetch world_down_writes by blast
  have names: "map district_name results = ?names"
    and ne: "(\<forall>n\<in>set ?names. n \<noteq> []) \<longrightarrow> (\<forall>r\<in>set results. district_name r \<noteq> [])"
    using record_names_are_input_names [OF run] by blast+
  have h: "''Pittsburgh School District'' \<noteq> []" by simp
  then have all: "\<forall>r\<in>set results. district_name r \<noteq> []" using ne by simp
  show ?thesis by (intro conjI h exI [of _ results] exI [of _ st'] run names all)
qed

section \<open>Two runs on the same mock\<close>

lemma fetch_same:
  assumes "\<And>n n' u. session_get w1 n u = session_get w2 n' u"
  shows "fst (get_page_source w1 d u s1) = fst (get_page_source w2 d u s2)"
  using assms [of "Suc (length (log s1))" u "Suc (length (log s2))"]
  by (simp add: get_page_source_eq)

lemma gs_search_same:
  assumes "\<And>n n' u. session_get w1 n u = session_get w2 n' u"
  shows "fst (GreatSchoolsScraper_search_district L w1 n s s1)
       = fst (GreatSchoolsScraper_search_district L w2 n s s2)"
proof -
  let ?u = "gs_base_url @ ''/search/search.page'' @ ''?''
             @ query_string L [(''q'', n), (''state'', s), (''level'', ''district'')]"
  obtain a t1 where 1: "get_page_source w1 1000 ?u s1 = (a, t1)"
    by (cases "get_page_source w1 1000 ?u s1")
  obtain b t2 where 2: "get_page_source w2 1000 ?u s2 = (b, t2)"
    by (cases "get_page_source w2 1000 ?u s2")
  have "a = b" using fetch_same [OF assms, of 1000 ?u s1 s2] 1 2 by simp
  then show ?thesis
    using 1 2 by (simp add: GreatSchoolsScraper_search_district_def Let_def
        split: option.splits sum.splits)
qed

lemma sd_search_same:
  assumes "\<And>n n' u. session_get w1 n u = session_get w2 n' u"
  shows "fst (SchoolDiggerScraper_search_district L w1 n s s1)
       = fst (SchoolDiggerScraper_search_district L w2 n s s2)"
proof -
  let ?u = "sd_base_url @ ''/go/PA/search.aspx'' @ ''?''
             @ query_string L [(''searchterm'', n), (''searchtype'', ''district'')]"
  obtain a t1 where 1: "get_page_source w1 1000 ?u s1 = (a, t1)"
    by (cases "get_page_source w1 1000 ?u s1")
  obtain b t2 where 2: "get_page_source w2 1000 ?u s2 = (b, t2)"
    by (cases "get_page_source w2 1000 ?u s2")
  have "a = b" using fetch_same [OF assms, of 1000 ?u s1 s2] 1 2 by simp
  then show ?thesis
    using 1 2 by (simp add: SchoolDiggerScraper_search_district_def Let_def
        split: option.splits sum.splits)
qed

lemma niche_try_search_same:
  assumes "\<And>n n' u. session_get w1 n u = session_get w2 n' u"
  shows "fst (niche_try_search L w1 n s s1) = fst (niche_try_search L w2 n s s2)"
proof -
  let ?u = "niche_base_url @ ''/search/k12/'' @ ''?'' @ query_string L [(''q'', n @ '' '' @ s)]"
  obtain a t1 where 1: "get_page_source w1 1500 ?u s1 = (a, t1)"
    by (cases "get_page_source w1 1500 ?u s1")
  obtain b t2 where 2: "get_page_source w2 1500 ?u s2 = (b, t2)"
    by (cases "get_page_source w2 1500 ?u s2")
  have "a = b" using fetch_same [OF assms, of 1500 ?u s1 s2] 1 2 by simp
  then show ?thesis
    using 1 2 by (simp add: niche_try_search_def Let_def split: option.splits sum.splits)
qed

lemma niche_search_same:
  assumes "\<And>n n' u. session_get w1 n u = session_get w2 n' u"
  shows "fst (NicheScraper_search_district L w1 n s s1)
       = fst (NicheScraper_search_district L w2 n s s2)"
proof -
  let ?u = "potential_url n s"
  obtain a t1 where 1: "get_page_source w1 1500 ?u s1 = (a, t1)"
    by (cases "get_page_source w1 1500 ?u s1")
  obtain b t2 where 2: "get_page_source w2 1500 ?u s2 = (b, t2)"
    by (cases "get_page_source w2 1500 ?u s2")
  have "a = b" using fetch_same [OF assms, of 1500 ?u s1 s2] 1 2 by simp
  then show ?thesis
    using 1 2 niche_try_search_same [OF assms, of L n s t1 t2]
    by (simp add: NicheScraper_search_district_def split: option.splits)
qed

lemma gs_data_same:
  assumes "\<And>n n' u. session_get w1 n u = session_get w2 n' u"
  shows "fst (GreatSchoolsScraper_scrape_district_data L w1 u s1)
       = fst (GreatSchoolsScraper_scrape_district_data L w2 u s2)"
proof -
  obtain a t1 where 1: "get_page_source w1 1000 u s1 = (a, t1)"
    by (cases "get_page_source w1 1000 u s1")
  obtain b t2 where 2: "get_page_source w2 1000 u s2 = (b, t2)"
    by (cases "get_page_source w2 1000 u s2")
  have "a = b" using fetch_same [OF assms, of 1000 u s1 s2] 1 2 by simp
  then show ?thesis
    using 1 2
    by (simp add: GreatSchoolsScraper_scrape_district_data_def Let_def
        split: option.splits sum.splits)
qed

lemma niche_data_same:
  assumes "\<And>n n' u. session_get w1 n u = session_get w2 n' u"
  shows "fst (NicheScraper_scrape_district_data L w1 u s1)
       = fst (NicheScraper_scrape_district_data L w2 u s2)"
proof -
  obtain a t1 where 1: "get_page_source w1 1500 u s1 = (a, t1)"
    by (cases "get_page_source w1 1500 u s1")
  obtain b t2 where 2: "get_page_source w2 1500 u s2 = (b, t2)"
    by (cases "get_page_source w2 1500 u s2")
  have "a = b" using fetch_same [OF assms, of 1500 u s1 s2] 1 2 by simp
  then show ?thesis
    using 1 2
    by (simp add: NicheScraper_scrape_district_data_def Let_def
        split: option.splits sum.splits)
qed

lemma sd_data_same:
  assumes "\<And>n n' u. session_get w1 n u = session_get w2 n' u"
  shows "fst (SchoolDiggerScraper_scrape_district_data L w1 u s1)
       = fst (SchoolDiggerScraper_scrape_district_data L w2 u s2)"
proof -
  obtain a t1 where 1: "get_page_source w1 1000 u s1 = (a, t1)"
    by (cases "get_page_source w1 1000 u s1")
  obtain b t2 where 2: "get_page_source w2 1000 u s2 = (b, t2)"
    by (cases "get_page_source w2 1000 u s2")
  have "a = b" using fetch_same [OF assms, of 1000 u s1 s2] 1 2 by simp
  then show ?thesis
    using 1 2
    by (simp add: SchoolDiggerScraper_scrape_district_data_def Let_def
        split: option.splits sum.splits)
qed

lemma without_timestamp_updates:
  "without_timestamp (d\<lparr>greatschools_rating := a, greatschools_url := b, enrollment := c,
                        student_teacher_ratio := e\<rparr>)
     = (without_timestamp d)\<lparr>greatschools_rating := a, greatschools_url := b, enrollment := c,
                             student_teacher_ratio := e\<rparr>"
  "without_timestamp (d\<lparr>niche_rating := a, niche_url := b\<rparr>)
     = (without_timestamp d)\<lparr>niche_rating := a, niche_url := b\<rparr>"
  "without_timestamp (d\<lparr>schooldigger_rating := a, schooldigger_url := b\<rparr>)
     = (without_timestamp d)\<lparr>schooldigger_rating := a, schooldigger_url := b\<rparr>"
  by (simp_all add: without_timestamp_def)

lemma same_outcome_simps:
  "same_outcome (Inl e1) (Inl e2) = (e1 = e2)"
  "same_outcome (Inr d1) (Inr d2) = (without_timestamp d1 = without_timestamp d2)"
  "same_outcome (Inl e1) (Inr d2) = False"
  "same_outcome (Inr d1) (Inl e2) = False"
  by (simp_all add: same_outcome_def)

lemma same_outcome_cases:
  assumes "same_outcome x y"
  obtains (err) e where "x = Inl e" "y = Inl e"
    | (ok) d1 d2 where "x = Inr d1" "y = Inr d2" "without_timestamp d1 = without_timestamp d2"
  using assms by (cases x; cases y) (auto simp: same_outcome_simps)

lemma scrape_greatschools_same:
  assumes "\<And>n n' u. session_get w1 n u = session_get w2 n' u"
    and "without_timestamp d1 = without_timestamp d2"
  shows "same_outcome (fst (scrape_greatschools L w1 n d1 s1))
                      (fst (scrape_greatschools L w2 n d2 s2))"
proof -
  obtain r1 t1 where 1: "GreatSchoolsScraper_search_district L w1 n ''PA'' s1 = (r1, t1)"
    by (cases "GreatSchoolsScraper_search_district L w1 n ''PA'' s1")
  obtain r2 t2 where 2: "GreatSchoolsScraper_search_district L w2 n ''PA'' s2 = (r2, t2)"
    by (cases "GreatSchoolsScraper_search_district L w2 n ''PA'' s2")
  have r: "r2 = r1"
    using gs_search_same [OF assms(1), of L n "''PA''" s1 s2] 1 2 by simp
  show ?thesis
  proof (cases r1)
    case (Inl e)
    then show ?thesis using 1 2 r by (simp add: scrape_greatschools_def same_outcome_simps)
  next
    case (Inr o1)
    show ?thesis
    proof (cases "o1 = None \<or> o1 = Some []")
      case True
      then show ?thesis using 1 2 r Inr assms(2)
        by (auto simp: scrape_greatschools_def same_outcome_simps)
    next
      case False
      then obtain u where u: "o1 = Some u" "u \<noteq> []" by (cases o1) auto
      obtain g1 v1 where g1: "GreatSchoolsScraper_scrape_district_data L w1 u t1 = (g1, v1)"
        by (cases "GreatSchoolsScraper_scrape_district_data L w1 u t1")
      obtain g2 v2 where g2: "GreatSchoolsScraper_scrape_district_data L w2 u t2 = (g2, v2)"
        by (cases "GreatSchoolsScraper_scrape_district_data L w2 u t2")
      have g: "g2 = g1"
        using gs_data_same [OF assms(1), of L u t1 t2] g1 g2 by simp
      show ?thesis
        using 1 2 r Inr u g1 g2 g assms(2)
        by (cases g1)
          (simp_all add: scrape_greatschools_def without_timestamp_updates same_outcome_simps)
    qed
  qed
qed

lemma scrape_niche_same:
  assumes "\<And>n n' u. session_get w1 n u = session_get w2 n' u"
    and "without_timestamp d1 = without_timestamp d2"
  shows "same_outcome (fst (scrape_niche L w1 n d1 s1))
                      (fst (scrape_niche L w2 n d2 s2))"
proof -
  obtain r1 t1 where 1: "NicheScraper_search_district L w1 n ''pennsylvania'' s1 = (r1, t1)"
    by (cases "NicheScraper_search_district L w1 n ''pennsylvania'' s1")
  obtain r2 t2 where 2: "NicheScraper_search_district L w2 n ''pennsylvania'' s2 = (r2, t2)"
    by (cases "NicheScraper_search_district L w2 n ''pennsylvania'' s2")
  have r: "r2 = r1"
    using niche_search_same [OF assms(1), of L n "''pennsylvania''" s1 s2] 1 2 by simp
  show ?thesis
  proof (cases r1)
    case (Inl e)
    then show ?thesis using 1 2 r by (simp add: scrape_niche_def same_outcome_simps)
  next
    case (Inr o1)
    show ?thesis
    proof (cases "o1 = None \<or> o1 = Some []")
      case True
      then show ?thesis using 1 2 r Inr assms(2)
        by (auto simp: scrape_niche_def same_outcome_simps)
    next
      case False
      then obtain u where u: "o1 = Some u" "u \<noteq> []" by (cases o1) auto
      obtain g1 v1 where g1: "NicheScraper_scrape_district_data L w1 u t1 = (g1, v1)"
        by (cases "NicheScraper_scrape_district_data L w1 u t1")
      obtain g2 v2 where g2: "NicheScraper_scrape_district_data L w2 u t2 = (g2, v2)"
        by (cases "NicheScraper_scrape_district_data L w2 u t2")
      have g: "g2 = g1"
        using niche_data_same [OF assms(1), of L u t1 t2] g1 g2 by simp
      show ?thesis
        using 1 2 r Inr u g1 g2 g assms(2)
        by (cases g1)
          (simp_all add: scrape_niche_def without_timestamp_updates same_outcome_simps)
    qed
  qed
qed

lemma scrape_schooldigger_same:
  assumes "\<And>n n' u. session_get w1 n u = session_get w2 n' u"
    and "without_timestamp d1 = without_timestamp d2"
  shows "same_outcome (fst (scrape_schooldigger L w1 n d1 s1))
                      (fst (scrape_schooldigger L w2 n d2 s2))"
proof -
  obtain r1 t1 where 1: "SchoolDiggerScraper_search_district L w1 n ''PA'' s1 = (r1, t1)"
    by (cases "SchoolDiggerScraper_search_district L w1 n ''PA'' s1")
  obtain r2 t2 where 2: "SchoolDiggerScraper_search_district L w2 n ''PA'' s2 = (r2, t2)"
    by (cases "SchoolDiggerScraper_search_district L w2 n ''PA'' s2")
  have r: "r2 = r1"
    using sd_search_same [OF assms(1), of L n "''PA''" s1 s2] 1 2 by simp
  show ?thesis
  proof (cases r1)
    case (Inl e)
    then show ?thesis using 1 2 r by (simp add: scrape_schooldigger_def same_outcome_simps)
  next
    case (Inr o1)
    show ?thesis
    proof (cases "o1 = None \<or> o1 = Some []")
      case True
      then show ?thesis using 1 2 r Inr assms(2)
        by (auto simp: scrape_schooldigger_def same_outcome_simps)
    next
      case False
      then obtain u where u: "o1 = Some u" "u \<noteq> []" by (cases o1) auto
      obtain g1 v1 where g1: "SchoolDiggerScraper_scrape_district_data L w1 u t1 = (g1, v1)"
        by (cases "SchoolDiggerScraper_scrape_district_data L w1 u t1")
      obtain g2 v2 where g2: "SchoolDiggerScraper_scrape_district_data L w2 u t2 = (g2, v2)"
        by (cases "SchoolDiggerScraper_scrape_district_data L w2 u t2")
      have g: "g2 = g1"
        using sd_data_same [OF assms(1), of L u t1 t2] g1 g2 by simp
      show ?thesis
        using 1 2 r Inr u g1 g2 g assms(2)
        by (cases g1)
          (simp_all add: scrape_schooldigger_def without_timestamp_updates same_outcome_simps)
    qed
  qed
qed

lemma scrape_district_same:
  assumes "\<And>n n' u. session_get w1 n u = session_get w2 n' u"
  shows "same_outcome (fst (scrape_district L w1 n s1)) (fst (scrape_district L w2 n s2))"
proof -
  let ?d1 = "new_district_data n (now w1 (clock_reads s1))"
  let ?d2 = "new_district_data n (now w2 (clock_reads s2))"
  let ?a1 = "s1\<lparr>clock_reads := clock_reads s1 + 1\<rparr>"
  let ?a2 = "s2\<lparr>clock_reads := clock_reads s2 + 1\<rparr>"
  have 0: "without_timestamp ?d1 = without_timestamp ?d2"
    by (simp add: without_timestamp_def new_district_data_def)
  obtain x1 t1 where g1: "scrape_greatschools L w1 n ?d1 ?a1 = (x1, t1)"
    by (cases "scrape_greatschools L w1 n ?d1 ?a1")
  obtain x2 t2 where g2: "scrape_greatschools L w2 n ?d2 ?a2 = (x2, t2)"
    by (cases "scrape_greatschools L w2 n ?d2 ?a2")
  have "same_outcome x1 x2"
    using scrape_greatschools_same [OF assms 0, of L n ?a1 ?a2] g1 g2 by simp
  then show ?thesis
  proof (cases rule: same_outcome_cases)
    case (err e)
    show ?thesis
      unfolding scrape_district_def Let_def g1 g2 using err by (simp add: same_outcome_simps)
  next
    case (ok e1 e2)
    obtain y1 u1 where n1: "scrape_niche L w1 n e1 t1 = (y1, u1)"
      by (cases "scrape_niche L w1 n e1 t1")
    obtain y2 u2 where n2: "scrape_niche L w2 n e2 t2 = (y2, u2)"
      by (cases "scrape_niche L w2 n e2 t2")
    have "same_outcome y1 y2"
      using scrape_niche_same [OF assms ok(3), of L n t1 t2] n1 n2 by simp
    then show ?thesis
    proof (cases rule: same_outcome_cases)
      case (err e)
      show ?thesis
        unfolding scrape_district_def Let_def g1 g2 using ok err n1 n2
        by (simp add: same_outcome_simps)
    next
      case ok2: (ok f1 f2)
      show ?thesis
        unfolding scrape_district_def Let_def g1 g2
        using ok ok2 n1 n2 scrape_schooldigger_same [OF assms ok2(3), of L n u1 u2]
        by simp
    qed
  qed
qed

lemma scrape_loop_same:
  assumes "\<And>n n' u. session_get w1 n u = session_get w2 n' u"
    and "map without_timestamp r1 = map without_timestamp r2"
    and "scrape_loop L w1 out names i r1 s1 = (Inr R1, t1)"
    and "scrape_loop L w2 out names i r2 s2 = (Inr R2, t2)"
  shows "map without_timestamp R1 = map without_timestamp R2"
  using assms(2-4)
proof (induction names arbitrary: i r1 r2 s1 s2)
  case Nil
  then show ?case by simp
next
  case (Cons n rest)
  obtain e1 u1 where 1: "scrape_district L w1 n s1 = (Inr e1, u1)"
    using Cons.prems(2)
    by (cases "scrape_district L w1 n s1") (auto split: sum.splits)
  obtain e2 u2 where 2: "scrape_district L w2 n s2 = (Inr e2, u2)"
    using Cons.prems(3)
    by (cases "scrape_district L w2 n s2") (auto split: sum.splits)
  have e: "without_timestamp e1 = without_timestamp e2"
    using scrape_district_same [OF assms(1), of L n s1 s2] 1 2
    by (simp add: same_outcome_simps)
  have m: "map without_timestamp (r1 @ [e1]) = map without_timestamp (r2 @ [e2])"
    using Cons.prems(1) e by simp
  obtain v1 where l1: "scrape_loop L w1 out rest (i + 1) (r1 @ [e1]) v1 = (Inr R1, t1)"
    using Cons.prems(2) 1
    by (auto simp: Let_def split: if_splits prod.splits sum.splits)
  obtain v2 where l2: "scrape_loop L w2 out rest (i + 1) (r2 @ [e2]) v2 = (Inr R2, t2)"
    using Cons.prems(3) 2
    by (auto simp: Let_def split: if_splits prod.splits sum.splits)
  show ?case
    by (rule Cons.IH [OF m l1 l2])
qed

lemma world_serving_later_fetch:
  "get_page_source (world_serving_later body) delay url st
     = (Some body, st\<lparr>log := log st @ [Sleep delay, Get url]\<rparr>)"
  by (simp add: get_page_source_eq world_serving_later_def)

lemma bplus_soup:
  "BeautifulSoup lib_examples bplus_page
     = Inr (Tag ''[document]'' [] [Tag ''div'' [(''class'', ''grade'')] [NavigableString ''B+'']])"
  by (simp add: lib_examples_def bplus_page_def excellent_page_def)

lemma bplus_not_empty: "bplus_page \<noteq> [] \<and> \<not> contains ''404'' bplus_page"
  by (simp add: bplus_page_def)

lemma bplus_pass:
  assumes "\<And>delay url s. get_page_source w delay url s
              = (Some bplus_page, s\<lparr>log := log s @ [Sleep delay, Get url]\<rparr>)"
  shows "\<exists>d st'. scrape_district lib_examples w ''Pittsburgh School District'' st = (Inr d, st')"
proof -
  let ?n = "''Pittsburgh School District''"
  have gs: "\<And>s. \<exists>s'. GreatSchoolsScraper_search_district lib_examples w ?n ''PA'' s = (Inr None, s')"
    by (simp add: GreatSchoolsScraper_search_district_def assms bplus_not_empty bplus_soup
        find_all_def)
  have sd: "\<And>s. \<exists>s'. SchoolDiggerScraper_search_district lib_examples w ?n ''PA'' s = (Inr None, s')"
    by (simp add: SchoolDiggerScraper_search_district_def assms bplus_not_empty bplus_soup
        find_all_def)
  have ni: "\<And>s. \<exists>s'. NicheScraper_search_district lib_examples w ?n ''pennsylvania'' s
              = (Inr (Some (potential_url ?n ''pennsylvania'')), s')"
    by (simp add: NicheScraper_search_district_def assms bplus_not_empty)
  have nd: "\<And>u s. \<exists>g s'. NicheScraper_scrape_district_data lib_examples w u s = (Inr g, s')"
    by (simp add: NicheScraper_scrape_district_data_def assms bplus_not_empty bplus_soup)
  have pu: "potential_url ?n ''pennsylvania'' \<noteq> []"
    by (simp add: pittsburgh_url)
  have 1: "\<And>d s. \<exists>s'. scrape_greatschools lib_examples w ?n d s = (Inr d, s')"
  proof -
    fix d s
    obtain s' where "GreatSchoolsScraper_search_district lib_examples w ?n ''PA'' s = (Inr None, s')"
      using gs by blast
    then show "\<exists>s'. scrape_greatschools lib_examples w ?n d s = (Inr d, s')"
      by (simp add: scrape_greatschools_def)
  qed
  have 3: "\<And>d s. \<exists>s'. scrape_schooldigger lib_examples w ?n d s = (Inr d, s')"
  proof -
    fix d s
    obtain s' where "SchoolDiggerScraper_search_district lib_examples w ?n ''PA'' s = (Inr None, s')"
      using sd by blast
    then show "\<exists>s'. scrape_schooldigger lib_examples w ?n d s = (Inr d, s')"
      by (simp add: scrape_schooldigger_def)
  qed
  have 2: "\<And>d s. \<exists>d' s'. scrape_niche lib_examples w ?n d s = (Inr d', s')"
  proof -
    fix d s
    obtain s1 where a: "NicheScraper_search_district lib_examples w ?n ''pennsylvania'' s
              = (Inr (Some (potential_url ?n ''pennsylvania'')), s1)"
      using ni by blast
    obtain g s2 where b: "NicheScraper_scrape_district_data lib_examples w
              (potential_url ?n ''pennsylvania'') s1 = (Inr g, s2)"
      using nd by blast
    show "\<exists>d' s'. scrape_niche lib_examples w ?n d s = (Inr d', s')"
      unfolding scrape_niche_def a using pu b by simp
  qed
  let ?d0 = "new_district_data ?n (now w (clock_reads st))"
  obtain s1 where g: "scrape_greatschools lib_examples w ?n ?d0
        (st\<lparr>clock_reads := clock_reads st + 1\<rparr>) = (Inr ?d0, s1)"
    using 1 by blast
  obtain d2 s2 where n: "scrape_niche lib_examples w ?n ?d0 s1 = (Inr d2, s2)"
    using 2 by blast
  obtain s3 where s: "scrape_schooldigger lib_examples w ?n d2 s2 = (Inr d2, s3)"
    using 3 by blast
  have "scrape_district lib_examples w ?n st = (Inr d2, s3)"
    unfolding scrape_district_def Let_def g by (simp add: n s)
  then show ?thesis by blast
qed

lemma bplus_run:
  assumes "\<And>delay url s. get_page_source w delay url s
              = (Some bplus_page, s\<lparr>log := log s @ [Sleep delay, Get url]\<rparr>)"
    and "\<And>k f. to_csv w k f = None"
  shows "\<exists>results st'. scrape_all_districts lib_examples w [''Pittsburgh School District'']
            ''out.csv'' st = (Inr results, st')"
proof -
  obtain d s1 where p: "scrape_district lib_examples w ''Pittsburgh School District'' st = (Inr d, s1)"
    using bplus_pass [OF assms(1)] by blast
  show ?thesis
    by (simp add: scrape_all_districts_def p save_results_def assms(2))
qed

text \<open>
  C8. Take two runs of the aggregator on the same list of names, with the same library
  and output file, in two worlds whose fetches are the same function \<open>fetch\<close> of the
  URL alone (a deterministic mock); the clocks of the two worlds, what their file
  systems accept and the states the runs start in may differ. When both runs return,
  their result lists agree row by row once the \<open>last_updated\<close> field is left out, and
  each run has written its list to the output file.
\<close>

theorem rows_equal_up_to_timestamp:
  assumes "\<And>n u. session_get w1 n u = fetch u"
    and "\<And>n u. session_get w2 n u = fetch u"
    and "scrape_all_districts L w1 district_names output_file st1 = (Inr results1, st1')"
    and "scrape_all_districts L w2 district_names output_file st2 = (Inr results2, st2')"
  shows "map without_timestamp results1 = map without_timestamp results2
    \<and> length results1 = length results2
    \<and> files st1' output_file = Some results1
    \<and> files st2' output_file = Some results2"
proof -
  have same: "\<And>n n' u. session_get w1 n u = session_get w2 n' u"
    by (simp add: assms(1,2))
  obtain t1 where 1: "scrape_loop L w1 output_file district_names 0 [] st1 = (Inr results1, t1)"
    and e1: "st1' = t1\<lparr>files := (files t1)(output_file \<mapsto> results1)\<rparr>"
    using scrape_all_Inr [OF assms(3)] by blast
  obtain t2 where 2: "scrape_loop L w2 output_file district_names 0 [] st2 = (Inr results2, t2)"
    and e2: "st2' = t2\<lparr>files := (files t2)(output_file \<mapsto> results2)\<rparr>"
    using scrape_all_Inr [OF assms(4)] by blast
  have m: "map without_timestamp results1 = map without_timestamp results2"
    using scrape_loop_same [OF same _ 1 2] by simp
  have l: "length results1 = length results2"
    using m by (metis length_map)
  have c: "files st1' output_file = Some results1" "files st2' output_file = Some results2"
    by (simp_all add: e1 e2)
  show ?thesis by (intro conjI m l c)
qed

text \<open>
  C8 at two runs that are served the same page at different times: both return, and
  their rows differ in the timestamp only.
\<close>

theorem two_runs_example:
  "(\<forall>n u. session_get (world_serving bplus_page) n u
            = Inr \<lparr>status_code = 200, resp_text = bplus_page\<rparr>)
   \<and> (\<forall>n u. session_get (world_serving_later bplus_page) n u
            = Inr \<lparr>status_code = 200, resp_text = bplus_page\<rparr>)
   \<and> now (world_serving bplus_page) 0 \<noteq> now (world_serving_later bplus_page) 0
   \<and> (\<exists>results1 st1' results2 st2'.
        scrape_all_districts lib_examples (world_serving bplus_page)
          [''Pittsburgh School District''] ''out.csv'' state0 = (Inr results1, st1')
      \<and> scrape_all_districts lib_examples (world_serving_later bplus_page)
          [''Pittsburgh School District''] ''out.csv'' state0 = (Inr results2, st2')
      \<and> map without_timestamp results1 = map without_timestamp results2
      \<and> files st1' ''out.csv'' = Some results1
      \<and> files st2' ''out.csv'' = Some results2)"
proof -
  let ?w1 = "world_serving bplus_page"
  let ?w2 = "world_serving_later bplus_page"
  have a: "\<And>n u. session_get ?w1 n u = Inr \<lparr>status_code = 200, resp_text = bplus_page\<rparr>"
    by (simp add: world_serving_def)
  have b: "\<And>n u. session_get ?w2 n u = Inr \<lparr>status_code = 200, resp_text = bplus_page\<rparr>"
    by (simp add: world_serving_later_def)
  have c: "now ?w1 0 \<noteq> now ?w2 0"
    by (simp add: world_serving_def world_serving_later_def)
  have wr1: "\<And>k f. to_csv ?w1 k f = None" by (simp add: world_serving_def)
  have wr2: "\<And>k f. to_csv ?w2 k f = None" by (simp add: world_serving_later_def)
  obtain results1 st1' where
    r1: "scrape_all_districts lib_examples ?w1 [''Pittsburgh School District''] ''out.csv'' state0
           = (Inr results1, st1')"
    using bplus_run [of ?w1 state0, OF world_serving_fetch wr1] by blast
  obtain results2 st2' where
    r2: "scrape_all_districts lib_examples ?w2 [''Pittsburgh School District''] ''out.csv'' state0
           = (Inr results2, st2')"
    using bplus_run [of ?w2 state0, OF world_serving_later_fetch wr2] by blast
  have m: "map without_timestamp results1 = map without_timestamp results2"
    and f1: "files st1' ''out.csv'' = Some results1"
    and f2: "files st2' ''out.csv'' = Some results2"
    using rows_equal_up_to_timestamp
      [of ?w1 "\<lambda>u. Inr \<lparr>status_code = 200, resp_text = bplus_page\<rparr>" ?w2, OF a b r1 r2]
    by blast+
  have d: "\<exists>results1 st1' results2 st2'.
        scrape_all_districts lib_examples ?w1
          [''Pittsburgh School District''] ''out.csv'' state0 = (Inr results1, st1')
      \<and> scrape_all_districts lib_examples ?w2
          [''Pittsburgh School District''] ''out.csv'' state0 = (Inr results2, st2')
      \<and> map without_timestamp results1 = map without_timestamp results2
      \<and> files st1' ''out.csv'' = Some results1
      \<and> files st2' ''out.csv'' = Some results2"
    by (intro exI [of _ results1] exI [of _ st1'] exI [of _ results2] exI [of _ st2'] conjI
        r1 r2 m f1 f2)
  show ?thesis using a b c d by blast
qed

end
